theory Spec2Isabelle
  imports Main
begin

section \<open>JSON values and display nodes\<close>

text \<open>
  The type tag \<open>EJson\<close> of the engine's JSON document model. The constructors carry the
  prefix \<open>EJson_\<close> because \<open>None\<close> is taken in HOL.
\<close>

datatype EJson =
    EJson_None | EJson_Null | EJson_String | EJson_Number | EJson_Boolean
  | EJson_Array | EJson_Object

text \<open>
  A JSON value as the widget receives it from the deserializer. The type variable \<open>'d\<close>
  stands for the engine's \<open>double\<close>. An object is the list of its members in the order in
  which the loop \<open>for (auto& Pair : JsonValue->AsObject()->Values)\<close> visits them.
  \<open>FJsonValueNone\<close> is a value whose \<open>Type\<close> is \<open>EJson::None\<close> (the \<open>default:\<close> branch of
  the switch in \<open>ParseNode\<close>).
\<close>

datatype 'd FJsonValue =
    FJsonValueNone
  | FJsonValueNull
  | FJsonValueString string
  | FJsonValueNumber 'd
  | FJsonValueBoolean bool
  | FJsonValueArray "'d FJsonValue list"
  | FJsonValueObject "(string \<times> 'd FJsonValue) list"

fun JsonType :: "'d FJsonValue \<Rightarrow> EJson" where
  "JsonType FJsonValueNone = EJson_None"
| "JsonType FJsonValueNull = EJson_Null"
| "JsonType (FJsonValueString s) = EJson_String"
| "JsonType (FJsonValueNumber d) = EJson_Number"
| "JsonType (FJsonValueBoolean b) = EJson_Boolean"
| "JsonType (FJsonValueArray es) = EJson_Array"
| "JsonType (FJsonValueObject ms) = EJson_Object"

text \<open>The class \<open>FTreeItem\<close>: key, value, type tag and the ordered children.\<close>

datatype FTreeItem =
  FTreeItem (Key: string) (Value: string) (ValueType: EJson) (ChildItems: "FTreeItem list")

text \<open>The constructors \<open>FTreeItem(EJson Type)\<close> and \<open>FTreeItem(InKey, InValue, InValueType)\<close>.\<close>

definition FTreeItem_Type :: "EJson \<Rightarrow> FTreeItem" where
  "FTreeItem_Type Type = FTreeItem '''' '''' Type []"

definition FTreeItem_KeyValue :: "string \<Rightarrow> string \<Rightarrow> EJson \<Rightarrow> FTreeItem" where
  "FTreeItem_KeyValue InKey InValue InValueType = FTreeItem InKey InValue InValueType []"

text \<open>Field updates of a node: \<open>ChildItems.Add\<close>, \<open>ChildItems.Append\<close>, assignments.\<close>

definition ChildItems_Add :: "FTreeItem \<Rightarrow> FTreeItem \<Rightarrow> FTreeItem" where
  "ChildItems_Add Node Item =
     FTreeItem (Key Node) (Value Node) (ValueType Node) (ChildItems Node @ [Item])"

definition ChildItems_Append :: "FTreeItem \<Rightarrow> FTreeItem list \<Rightarrow> FTreeItem" where
  "ChildItems_Append Node Items =
     FTreeItem (Key Node) (Value Node) (ValueType Node) (ChildItems Node @ Items)"

definition ChildItems_Assign :: "FTreeItem \<Rightarrow> FTreeItem list \<Rightarrow> FTreeItem" where
  "ChildItems_Assign Node Items = FTreeItem (Key Node) (Value Node) (ValueType Node) Items"

definition Value_Assign :: "FTreeItem \<Rightarrow> string \<Rightarrow> FTreeItem" where
  "Value_Assign Node V = FTreeItem (Key Node) V (ValueType Node) (ChildItems Node)"

definition ValueType_Assign :: "FTreeItem \<Rightarrow> EJson \<Rightarrow> FTreeItem" where
  "ValueType_Assign Node T = FTreeItem (Key Node) (Value Node) T (ChildItems Node)"

section \<open>ParseNode\<close>

text \<open>
  \<open>UJsonTreeViewerWidget::ParseNode\<close>. The two range-based \<open>for\<close> loops are the functions
  \<open>ParseNode_Object_loop\<close> and \<open>ParseNode_Array_loop\<close>, which carry the node under
  construction. \<open>SanitizeFloat\<close> is the engine's \<open>FString::SanitizeFloat\<close>, a parameter.
\<close>

fun ParseNode :: "('d \<Rightarrow> string) \<Rightarrow> 'd FJsonValue \<Rightarrow> FTreeItem"
  and ParseNode_Object_loop ::
    "('d \<Rightarrow> string) \<Rightarrow> (string \<times> 'd FJsonValue) list \<Rightarrow> FTreeItem \<Rightarrow> FTreeItem"
  and ParseNode_Array_loop ::
    "('d \<Rightarrow> string) \<Rightarrow> 'd FJsonValue list \<Rightarrow> FTreeItem \<Rightarrow> FTreeItem"
where
  "ParseNode SanitizeFloat JsonValue =
     (let Node = FTreeItem_Type (JsonType JsonValue)
      in case JsonValue of
           FJsonValueObject Values \<Rightarrow> ParseNode_Object_loop SanitizeFloat Values Node
         | FJsonValueArray Elements \<Rightarrow> ParseNode_Array_loop SanitizeFloat Elements Node
         | FJsonValueString s \<Rightarrow> ValueType_Assign (Value_Assign Node s) EJson_String
         | FJsonValueNumber NumberValue \<Rightarrow>
             ValueType_Assign (Value_Assign Node (SanitizeFloat NumberValue)) EJson_Number
         | FJsonValueBoolean BoolValue \<Rightarrow>
             ValueType_Assign
               (Value_Assign Node (if BoolValue then ''true'' else ''false'')) EJson_Boolean
         | FJsonValueNull \<Rightarrow> ValueType_Assign (Value_Assign Node ''null'') EJson_Null
         | FJsonValueNone \<Rightarrow> Node)"
| "ParseNode_Object_loop SanitizeFloat [] Node = Node"
| "ParseNode_Object_loop SanitizeFloat ((PairKey, PairValue) # Values) Node =
     (let Parsed = ParseNode SanitizeFloat PairValue;
          Child = FTreeItem_KeyValue PairKey (Value Parsed) (ValueType Parsed);
          Child = (if length (ChildItems Parsed) > 0
                   then ChildItems_Assign Child (ChildItems Parsed) else Child)
      in ParseNode_Object_loop SanitizeFloat Values (ChildItems_Add Node Child))"
| "ParseNode_Array_loop SanitizeFloat [] Node = Node"
| "ParseNode_Array_loop SanitizeFloat (Element # Elements) Node =
     (let Parsed = ParseNode SanitizeFloat Element
      in ParseNode_Array_loop SanitizeFloat Elements
           (if length (ChildItems Parsed) > 0
            then ChildItems_Append Node (ChildItems Parsed)
            else ChildItems_Add Node Parsed))"

declare ParseNode.simps [simp del]

section \<open>The widget and the engine it runs in\<close>

text \<open>
  \<open>FSlateColor\<close>: either a specified colour (\<open>'c\<close> stands for \<open>FLinearColor\<close>) or the
  marker returned by \<open>FSlateColor::UseForeground()\<close>.
\<close>

datatype 'c FSlateColor = FSlateColor_Specified 'c | FSlateColor_UseForeground

text \<open>
  The members of \<open>UJsonTreeViewerWidget\<close> that the conversion and the colour lookup read or
  write. The leading underscore of the private members is dropped. \<open>JsonValue\<close> is a shared
  pointer, \<open>None\<close> when null.
\<close>

record ('d, 'c) UJsonTreeViewerWidget =
  bValidJson :: bool
  JsonFilePath :: string
  JsonString :: string
  JsonValue :: "'d FJsonValue option"
  TreeItems :: "FTreeItem list"
  JsonInput :: string
  KeyColor :: "'c FSlateColor"
  KeyAtColor :: "'c FSlateColor"
  StringValueColor :: "'c FSlateColor"
  BooleanValueColor :: "'c FSlateColor"
  NumericValueColor :: "'c FSlateColor"
  NullValueColor :: "'c FSlateColor"

text \<open>
  What the widget asks of the engine, which is not part of the repository:
  \<open>FPaths::FileExists\<close>, \<open>FFileHelper::LoadFileToString\<close> (\<open>None\<close> when the file cannot be
  read), the JSON reader (\<open>ReadJson\<close> gives the root value of a text, \<open>None\<close> when the reader
  reports an error) and \<open>FString::SanitizeFloat\<close>.
\<close>

record 'd Engine =
  FileExists :: "string \<Rightarrow> bool"
  LoadFileToString :: "string \<Rightarrow> string option"
  ReadJson :: "string \<Rightarrow> 'd FJsonValue option"
  SanitizeFloat :: "'d \<Rightarrow> string"

text \<open>
  The two overloads of \<open>FJsonSerializer::Deserialize\<close> that the widget calls. The one whose
  out-parameter is a \<open>TSharedPtr<FJsonObject>\<close> succeeds only when the root of the text is an
  object; the one whose out-parameter is a \<open>TSharedPtr<FJsonValue>\<close> hands out the root value.
  Each returns its \<open>bool\<close> and the content of the out-parameter, which is left as it was on
  failure.
\<close>

definition Deserialize_JsonObject ::
  "'d Engine \<Rightarrow> string \<Rightarrow> (string \<times> 'd FJsonValue) list option
     \<Rightarrow> bool \<times> (string \<times> 'd FJsonValue) list option" where
  "Deserialize_JsonObject E JsonReader OutObject =
     (case ReadJson E JsonReader of
        Some (FJsonValueObject Values) \<Rightarrow> (True, Some Values)
      | _ \<Rightarrow> (False, OutObject))"

definition Deserialize_JsonValue ::
  "'d Engine \<Rightarrow> string \<Rightarrow> 'd FJsonValue option \<Rightarrow> bool \<times> 'd FJsonValue option" where
  "Deserialize_JsonValue E JsonReader OutValue =
     (case ReadJson E JsonReader of
        Some v \<Rightarrow> (True, Some v)
      | None \<Rightarrow> (False, OutValue))"

section \<open>The widget's functions\<close>

definition ReadJsonFile :: "'d Engine \<Rightarrow> string \<Rightarrow> string \<Rightarrow> bool \<times> string" where
  "ReadJsonFile E FilePath JsonString_out =
     (case LoadFileToString E FilePath of
        None \<Rightarrow> (False, JsonString_out)
      | Some Contents \<Rightarrow> (True, Contents))"

definition IsValidJson :: "'d Engine \<Rightarrow> string \<Rightarrow> bool" where
  "IsValidJson E JsonString_in = fst (Deserialize_JsonObject E JsonString_in None)"

definition ParseJsonContents ::
  "'d Engine \<Rightarrow> string \<Rightarrow> 'd FJsonValue option \<Rightarrow> bool \<times> 'd FJsonValue option" where
  "ParseJsonContents E JsonString_in OutJsonValue =
     (if IsValidJson E JsonString_in then Deserialize_JsonValue E JsonString_in OutJsonValue
      else (False, OutJsonValue))"

text \<open>\<open>AsArray()\<close> and \<open>AsObject()->Values\<close>, used by \<open>BuildTree\<close> after it has tested the type.\<close>

fun AsArray :: "'d FJsonValue \<Rightarrow> 'd FJsonValue list" where
  "AsArray (FJsonValueArray Elements) = Elements"
| "AsArray _ = []"

fun AsObject_Values :: "'d FJsonValue \<Rightarrow> (string \<times> 'd FJsonValue) list" where
  "AsObject_Values (FJsonValueObject Values) = Values"
| "AsObject_Values _ = []"

text \<open>The two loops of \<open>BuildTree\<close>; each appends to \<open>_TreeItems\<close>.\<close>

fun BuildTree_Array_loop ::
  "'d Engine \<Rightarrow> 'd FJsonValue list \<Rightarrow> ('d, 'c) UJsonTreeViewerWidget
     \<Rightarrow> ('d, 'c) UJsonTreeViewerWidget" where
  "BuildTree_Array_loop E [] w = w"
| "BuildTree_Array_loop E (Element # Elements) w =
     BuildTree_Array_loop E Elements
       (w\<lparr>TreeItems := TreeItems w @ [ParseNode (SanitizeFloat E) Element]\<rparr>)"

fun BuildTree_Object_loop ::
  "'d Engine \<Rightarrow> (string \<times> 'd FJsonValue) list \<Rightarrow> ('d, 'c) UJsonTreeViewerWidget
     \<Rightarrow> ('d, 'c) UJsonTreeViewerWidget" where
  "BuildTree_Object_loop E [] w = w"
| "BuildTree_Object_loop E ((PairKey, PairValue) # Values) w =
     (let Parsed = ParseNode (SanitizeFloat E) PairValue;
          Row = FTreeItem_KeyValue PairKey (Value Parsed) (ValueType Parsed);
          Row = (if length (ChildItems Parsed) > 0
                 then ChildItems_Assign Row (ChildItems Parsed) else Row)
      in BuildTree_Object_loop E Values (w\<lparr>TreeItems := TreeItems w @ [Row]\<rparr>))"

definition BuildTree ::
  "'d Engine \<Rightarrow> 'd FJsonValue \<Rightarrow> ('d, 'c) UJsonTreeViewerWidget
     \<Rightarrow> ('d, 'c) UJsonTreeViewerWidget" where
  "BuildTree E JsonValue_in w =
     (let w = w\<lparr>TreeItems := []\<rparr>
      in if JsonType JsonValue_in = EJson_Array
         then BuildTree_Array_loop E (AsArray JsonValue_in) w
         else if JsonType JsonValue_in = EJson_Object
         then BuildTree_Object_loop E (AsObject_Values JsonValue_in) w
         else w\<lparr>TreeItems := TreeItems w @ [ParseNode (SanitizeFloat E) JsonValue_in]\<rparr>)"

definition InitJsonTree ::
  "'d Engine \<Rightarrow> string \<Rightarrow> ('d, 'c) UJsonTreeViewerWidget
     \<Rightarrow> ('d, 'c) UJsonTreeViewerWidget" where
  "InitJsonTree E JsonPathorString w =
     (let w =
        (if FileExists E JsonPathorString
         then (let w = w\<lparr>JsonInput := JsonPathorString\<rparr>;
                   w = w\<lparr>JsonFilePath := JsonPathorString\<rparr>;
                   r = ReadJsonFile E (JsonFilePath w) (JsonString w)
               in w\<lparr>JsonString := snd r, bValidJson := fst r\<rparr>)
         else if IsValidJson E JsonPathorString
         then (let w = w\<lparr>JsonInput := JsonPathorString\<rparr>;
                   w = w\<lparr>JsonString := JsonPathorString\<rparr>
               in w\<lparr>bValidJson := True\<rparr>)
         else w\<lparr>bValidJson := False\<rparr>)
      in if bValidJson w
         then (let r = ParseJsonContents E (JsonString w) (JsonValue w);
                   w = w\<lparr>JsonValue := snd r\<rparr>
               in case (fst r, JsonValue w) of
                    (True, Some v) \<Rightarrow> BuildTree E v w
                  | _ \<Rightarrow> w)
         else w)"

definition GetValueColorFromJsonType ::
  "('d, 'c) UJsonTreeViewerWidget \<Rightarrow> EJson \<Rightarrow> 'c FSlateColor" where
  "GetValueColorFromJsonType w Type =
     (case Type of
        EJson_String \<Rightarrow> StringValueColor w
      | EJson_Number \<Rightarrow> NumericValueColor w
      | EJson_Boolean \<Rightarrow> BooleanValueColor w
      | EJson_Null \<Rightarrow> NullValueColor w
      | _ \<Rightarrow> FSlateColor_UseForeground)"

section \<open>Inspecting a tree\<close>

text \<open>All nodes of a display tree, the root first.\<close>

fun Nodes :: "FTreeItem \<Rightarrow> FTreeItem list" where
  "Nodes (FTreeItem k v t cs) = FTreeItem k v t cs # concat (map Nodes cs)"

section \<open>An example engine and widget\<close>

text \<open>
  A small engine with three files (one readable with an object in it, one unreadable, one
  whose contents are cut off) and a reader that knows a few texts, and a widget that
  already shows one row. Doubles are played by integers, colours by their names.
\<close>

definition Example_Engine :: "int Engine" where
  \<open>Example_Engine =
     \<lparr>FileExists = (\<lambda>p. p = ''tree.json'' \<or> p = ''locked.json'' \<or> p = ''broken.json''),
      LoadFileToString =
        (\<lambda>p. if p = ''tree.json'' then Some ''{"a":[[1],true]}''
             else if p = ''broken.json'' then Some ''{"a":''
             else None),
      ReadJson =
        (\<lambda>s. if s = ''{"a":[[1],true]}''
             then Some (FJsonValueObject
                    [(''a'', FJsonValueArray
                       [FJsonValueArray [FJsonValueNumber 1], FJsonValueBoolean True])])
             else if s = ''{}'' then Some (FJsonValueObject [])
             else if s = ''[[1]]''
             then Some (FJsonValueArray [FJsonValueArray [FJsonValueNumber 1]])
             else if s = ''true'' then Some (FJsonValueBoolean True)
             else None),
      SanitizeFloat = (\<lambda>d. if d = 1 then ''1.0'' else ''0.0'')\<rparr>\<close>

definition Example_Widget :: "(int, string) UJsonTreeViewerWidget" where
  "Example_Widget =
     \<lparr>bValidJson = False, JsonFilePath = '''', JsonString = '''', JsonValue = None,
      TreeItems = [FTreeItem ''old'' ''row'' EJson_String []], JsonInput = '''',
      KeyColor = FSlateColor_Specified ''Pale Green'',
      KeyAtColor = FSlateColor_Specified ''Mauve'',
      StringValueColor = FSlateColor_Specified ''Buff'',
      BooleanValueColor = FSlateColor_Specified ''Pink'',
      NumericValueColor = FSlateColor_Specified ''Dark Yellow'',
      NullValueColor = FSlateColor_Specified ''Red''\<rparr>"

text \<open>
  The shape that the conversion gives every node: a node with children is an object or an
  array node and shows no value.
\<close>

definition Shape_ok :: "FTreeItem \<Rightarrow> bool" where
  "Shape_ok n \<longleftrightarrow>
     (ChildItems n \<noteq> [] \<longrightarrow>
        (ValueType n = EJson_Object \<or> ValueType n = EJson_Array) \<and> Value n = '''')"

section \<open>ParseNode and BuildTree on a heap of shared nodes\<close>

text \<open>
  In the source a node is an object on the heap, held through \<open>TSharedPtr<FTreeItem>\<close>, and
  \<open>ChildItems\<close> is an array of such pointers; \<open>Child->ChildItems = Parsed->ChildItems\<close> and
  \<open>Node->ChildItems.Append(Parsed->ChildItems)\<close> copy pointers, not nodes. The functions
  above compute with node values. The functions of this section compute with addresses:
  the heap is the list of the node objects allocated so far, an address is an index into
  it, and \<open>MakeShared\<close> allocates at the end. Nothing is freed: an object whose last pointer
  is dropped stays in the list, unreachable.
\<close>

type_synonym addr = nat

record FTreeItem_cell =
  cell_Key :: string
  cell_Value :: string
  cell_ValueType :: EJson
  cell_ChildItems :: "addr list"

type_synonym heap = "FTreeItem_cell list"

definition MakeShared :: "FTreeItem_cell \<Rightarrow> heap \<Rightarrow> addr \<times> heap" where
  "MakeShared c h = (length h, h @ [c])"

fun ParseNode_heap :: "('d \<Rightarrow> string) \<Rightarrow> 'd FJsonValue \<Rightarrow> heap \<Rightarrow> addr \<times> heap"
  and ParseNode_Object_loop_heap ::
    "('d \<Rightarrow> string) \<Rightarrow> (string \<times> 'd FJsonValue) list \<Rightarrow> addr \<Rightarrow> heap \<Rightarrow> heap"
  and ParseNode_Array_loop_heap ::
    "('d \<Rightarrow> string) \<Rightarrow> 'd FJsonValue list \<Rightarrow> addr \<Rightarrow> heap \<Rightarrow> heap"
where
  "ParseNode_heap Sanitize JsonValue_in h =
     (let (Node, h) =
            MakeShared \<lparr>cell_Key = '''', cell_Value = '''',
              cell_ValueType = JsonType JsonValue_in, cell_ChildItems = []\<rparr> h
      in case JsonValue_in of
           FJsonValueObject Values \<Rightarrow>
             (Node, ParseNode_Object_loop_heap Sanitize Values Node h)
         | FJsonValueArray Elements \<Rightarrow>
             (Node, ParseNode_Array_loop_heap Sanitize Elements Node h)
         | FJsonValueString s \<Rightarrow>
             (Node, h[Node := (h ! Node)\<lparr>cell_Value := s, cell_ValueType := EJson_String\<rparr>])
         | FJsonValueNumber NumberValue \<Rightarrow>
             (Node, h[Node := (h ! Node)\<lparr>cell_Value := Sanitize NumberValue,
                                          cell_ValueType := EJson_Number\<rparr>])
         | FJsonValueBoolean BoolValue \<Rightarrow>
             (Node, h[Node := (h ! Node)\<lparr>cell_Value := (if BoolValue then ''true'' else ''false''),
                                          cell_ValueType := EJson_Boolean\<rparr>])
         | FJsonValueNull \<Rightarrow>
             (Node, h[Node := (h ! Node)\<lparr>cell_Value := ''null'', cell_ValueType := EJson_Null\<rparr>])
         | FJsonValueNone \<Rightarrow> (Node, h))"
| "ParseNode_Object_loop_heap Sanitize [] Node h = h"
| "ParseNode_Object_loop_heap Sanitize ((PairKey, PairValue) # Values) Node h =
     (let (Parsed, h) = ParseNode_heap Sanitize PairValue h;
          (Child, h) =
            MakeShared \<lparr>cell_Key = PairKey, cell_Value = cell_Value (h ! Parsed),
              cell_ValueType = cell_ValueType (h ! Parsed), cell_ChildItems = []\<rparr> h;
          h = (if length (cell_ChildItems (h ! Parsed)) > 0
               then h[Child := (h ! Child)\<lparr>cell_ChildItems := cell_ChildItems (h ! Parsed)\<rparr>]
               else h);
          h = h[Node := (h ! Node)\<lparr>cell_ChildItems := cell_ChildItems (h ! Node) @ [Child]\<rparr>]
      in ParseNode_Object_loop_heap Sanitize Values Node h)"
| "ParseNode_Array_loop_heap Sanitize [] Node h = h"
| "ParseNode_Array_loop_heap Sanitize (Element # Elements) Node h =
     (let (Parsed, h) = ParseNode_heap Sanitize Element h;
          h = (if length (cell_ChildItems (h ! Parsed)) > 0
               then h[Node := (h ! Node)\<lparr>cell_ChildItems :=
                      cell_ChildItems (h ! Node) @ cell_ChildItems (h ! Parsed)\<rparr>]
               else h[Node := (h ! Node)\<lparr>cell_ChildItems :=
                      cell_ChildItems (h ! Node) @ [Parsed]\<rparr>])
      in ParseNode_Array_loop_heap Sanitize Elements Node h)"

declare ParseNode_heap.simps [simp del]

text \<open>
  \<open>BuildTree\<close> on the heap: the state is the pointer array \<open>_TreeItems\<close> and the heap.
\<close>

fun BuildTree_Array_loop_heap ::
  "('d \<Rightarrow> string) \<Rightarrow> 'd FJsonValue list \<Rightarrow> addr list \<times> heap \<Rightarrow> addr list \<times> heap" where
  "BuildTree_Array_loop_heap Sanitize [] (Items, h) = (Items, h)"
| "BuildTree_Array_loop_heap Sanitize (Element # Elements) (Items, h) =
     (let (Parsed, h) = ParseNode_heap Sanitize Element h
      in BuildTree_Array_loop_heap Sanitize Elements (Items @ [Parsed], h))"

fun BuildTree_Object_loop_heap ::
  "('d \<Rightarrow> string) \<Rightarrow> (string \<times> 'd FJsonValue) list \<Rightarrow> addr list \<times> heap
     \<Rightarrow> addr list \<times> heap" where
  "BuildTree_Object_loop_heap Sanitize [] (Items, h) = (Items, h)"
| "BuildTree_Object_loop_heap Sanitize ((PairKey, PairValue) # Values) (Items, h) =
     (let (Parsed, h) = ParseNode_heap Sanitize PairValue h;
          (Row, h) =
            MakeShared \<lparr>cell_Key = PairKey, cell_Value = cell_Value (h ! Parsed),
              cell_ValueType = cell_ValueType (h ! Parsed), cell_ChildItems = []\<rparr> h;
          h = (if length (cell_ChildItems (h ! Parsed)) > 0
               then h[Row := (h ! Row)\<lparr>cell_ChildItems := cell_ChildItems (h ! Parsed)\<rparr>]
               else h)
      in BuildTree_Object_loop_heap Sanitize Values (Items @ [Row], h))"

definition BuildTree_heap ::
  "('d \<Rightarrow> string) \<Rightarrow> 'd FJsonValue \<Rightarrow> addr list \<times> heap \<Rightarrow> addr list \<times> heap" where
  "BuildTree_heap Sanitize JsonValue_in st =
     (let st = ([], snd st)
      in if JsonType JsonValue_in = EJson_Array
         then BuildTree_Array_loop_heap Sanitize (AsArray JsonValue_in) st
         else if JsonType JsonValue_in = EJson_Object
         then BuildTree_Object_loop_heap Sanitize (AsObject_Values JsonValue_in) st
         else (let (Parsed, h) = ParseNode_heap Sanitize JsonValue_in (snd st)
               in (fst st @ [Parsed], h)))"

text \<open>
  Reading a heap. \<open>Child_rel h\<close> relates a node object to the objects its \<open>ChildItems\<close>
  point to; the descendants of a node are what the transitive closure reaches, and the
  final tree is what is reachable from the item list.
\<close>

definition Child_rel :: "heap \<Rightarrow> (addr \<times> addr) set" where
  "Child_rel h = {(p, c). p < length h \<and> c \<in> set (cell_ChildItems (h ! p))}"

definition Reachable :: "heap \<Rightarrow> addr list \<Rightarrow> addr set" where
  "Reachable h Items = (Child_rel h)\<^sup>* `` set Items"

text \<open>
  \<open>Tree h a A t\<close>: the object at address \<open>a\<close> is the root of a finite tree that occupies
  exactly the addresses \<open>A\<close>, each once, and reads as the node value \<open>t\<close>. \<open>Forest\<close> is the same
  for a pointer array: the trees of its pointers occupy disjoint sets of addresses.
\<close>

inductive Tree :: "heap \<Rightarrow> addr \<Rightarrow> addr set \<Rightarrow> FTreeItem \<Rightarrow> bool"
  and Forest :: "heap \<Rightarrow> addr list \<Rightarrow> addr set \<Rightarrow> FTreeItem list \<Rightarrow> bool"
where
  Forest_Nil: "Forest h [] {} []"
| Forest_Cons:
    "Tree h a A t \<Longrightarrow> Forest h as B ts \<Longrightarrow> A \<inter> B = {} \<Longrightarrow> Forest h (a # as) (A \<union> B) (t # ts)"
| Tree_Node:
    "a < length h \<Longrightarrow> Forest h (cell_ChildItems (h ! a)) B cs \<Longrightarrow> a \<notin> B \<Longrightarrow>
     Tree h a (insert a B)
       (FTreeItem (cell_Key (h ! a)) (cell_Value (h ! a)) (cell_ValueType (h ! a)) cs)"

text \<open>
  The contract of \<open>ParseNode_heap\<close> at a heap \<open>h\<close>: the returned pointer is the first new
  address, the objects that were there are untouched, and the new objects hold a tree
  that reads as the node value \<open>ParseNode\<close> computes.
\<close>

definition ParseNode_heap_ok :: "('d \<Rightarrow> string) \<Rightarrow> 'd FJsonValue \<Rightarrow> heap \<Rightarrow> bool" where
  "ParseNode_heap_ok Sanitize v h \<longleftrightarrow>
     (case ParseNode_heap Sanitize v h of
        (a, h') \<Rightarrow>
          a = length h \<and> length h < length h' \<and> (\<forall>x < length h. h' ! x = h ! x) \<and>
          (\<exists>A. Tree h' a A (ParseNode Sanitize v) \<and> A \<subseteq> {length h..<length h'}))"

text \<open>
  \<open>Simple_tree h Items\<close>: what is reachable from the pointer array \<open>Items\<close> in the heap
  \<open>h\<close> is a finite simple tree. Every reachable pointer is valid; no reachable object is
  a descendant of itself; and every pointer held in \<open>Items\<close> or in the \<open>ChildItems\<close> of a
  reachable object is held at that one position only: \<open>Items\<close> and each such \<open>ChildItems\<close>
  have no repetition, no \<open>ChildItems\<close> shares a pointer with \<open>Items\<close>, and no two reachable
  objects share a pointer in their \<open>ChildItems\<close>.
\<close>

definition Simple_tree :: "heap \<Rightarrow> addr list \<Rightarrow> bool" where
  "Simple_tree h Items \<longleftrightarrow>
     finite (Reachable h Items) \<and>
     (\<forall>a \<in> Reachable h Items. a < length h \<and> (a, a) \<notin> (Child_rel h)\<^sup>+) \<and>
     distinct Items \<and>
     (\<forall>p \<in> Reachable h Items.
        distinct (cell_ChildItems (h ! p)) \<and> set (cell_ChildItems (h ! p)) \<inter> set Items = {}) \<and>
     (\<forall>p \<in> Reachable h Items. \<forall>q \<in> Reachable h Items.
        p \<noteq> q \<longrightarrow> set (cell_ChildItems (h ! p)) \<inter> set (cell_ChildItems (h ! q)) = {})"

text \<open>The heap and pointer array of a widget that shows one row.\<close>

definition Example_Heap :: heap where
  "Example_Heap =
     [\<lparr>cell_Key = ''old'', cell_Value = ''row'', cell_ValueType = EJson_String,
       cell_ChildItems = []\<rparr>]"

section \<open>What the loops of ParseNode compute\<close>

lemma ParseNode_Array_loop_fields:
  "Key (ParseNode_Array_loop sf es Node) = Key Node \<and>
   Value (ParseNode_Array_loop sf es Node) = Value Node \<and>
   ValueType (ParseNode_Array_loop sf es Node) = ValueType Node"
  by (induction es arbitrary: Node)
     (simp_all add: Let_def ChildItems_Append_def ChildItems_Add_def)

lemma ParseNode_Object_loop_fields:
  "Key (ParseNode_Object_loop sf ms Node) = Key Node \<and>
   Value (ParseNode_Object_loop sf ms Node) = Value Node \<and>
   ValueType (ParseNode_Object_loop sf ms Node) = ValueType Node"
  by (induction ms arbitrary: Node)
     (auto simp add: Let_def ChildItems_Add_def)

lemma ParseNode_Array_loop_children:
  "ChildItems (ParseNode_Array_loop sf es Node) =
     ChildItems Node @
     concat (map (\<lambda>e. if ChildItems (ParseNode sf e) \<noteq> [] then ChildItems (ParseNode sf e)
                       else [ParseNode sf e]) es)"
  by (induction es arbitrary: Node)
     (simp_all add: Let_def ChildItems_Append_def ChildItems_Add_def)

lemma ParseNode_Object_loop_children:
  "ChildItems (ParseNode_Object_loop sf ms Node) =
     ChildItems Node @
     map (\<lambda>(k, v). FTreeItem k (Value (ParseNode sf v)) (ValueType (ParseNode sf v))
                      (ChildItems (ParseNode sf v))) ms"
  by (induction ms arbitrary: Node)
     (auto simp add: Let_def ChildItems_Assign_def ChildItems_Add_def FTreeItem_KeyValue_def)

lemma ParseNode_Array:
  "ParseNode sf (FJsonValueArray es) =
     FTreeItem [] [] EJson_Array
       (concat (map (\<lambda>e. if ChildItems (ParseNode sf e) \<noteq> [] then ChildItems (ParseNode sf e)
                         else [ParseNode sf e]) es))"
  by (rule FTreeItem.expand)
     (simp add: ParseNode.simps[of sf "FJsonValueArray es"] ParseNode_Array_loop_children
        ParseNode_Array_loop_fields FTreeItem_Type_def)

lemma ParseNode_Object:
  "ParseNode sf (FJsonValueObject ms) =
     FTreeItem [] [] EJson_Object
       (map (\<lambda>(k, v). FTreeItem k (Value (ParseNode sf v)) (ValueType (ParseNode sf v))
                        (ChildItems (ParseNode sf v))) ms)"
  by (rule FTreeItem.expand)
     (simp add: ParseNode.simps[of sf "FJsonValueObject ms"] ParseNode_Object_loop_children
        ParseNode_Object_loop_fields FTreeItem_Type_def)

lemma ParseNode_primitive:
  "ParseNode sf (FJsonValueString s) = FTreeItem [] s EJson_String []"
  "ParseNode sf (FJsonValueNumber d) = FTreeItem [] (sf d) EJson_Number []"
  "ParseNode sf (FJsonValueBoolean b) =
     FTreeItem [] (if b then ''true'' else ''false'') EJson_Boolean []"
  "ParseNode sf FJsonValueNull = FTreeItem [] ''null'' EJson_Null []"
  "ParseNode sf FJsonValueNone = FTreeItem [] [] EJson_None []"
  by (simp_all add: ParseNode.simps[of sf] FTreeItem_Type_def Value_Assign_def
        ValueType_Assign_def)

text \<open>
  Claim C1. For an array given to \<open>ParseNode\<close>, the children of the returned node are the
  concatenation, in element order, of one piece per element: the children of the converted
  element when it has at least one child, and the converted element itself otherwise.
\<close>

theorem ParseNode_Array_children_spliced:
  "ChildItems (ParseNode sf (FJsonValueArray es)) =
     concat (map (\<lambda>e. if length (ChildItems (ParseNode sf e)) \<ge> 1
                       then ChildItems (ParseNode sf e)
                       else [ParseNode sf e]) es)"
proof -
  have "length (ChildItems n) \<ge> 1 \<longleftrightarrow> ChildItems n \<noteq> []" for n
    by (cases "ChildItems n") simp_all
  then show ?thesis
    by (simp add: ParseNode_Array)
qed

text \<open>
  Claim C2. For an object given to \<open>ParseNode\<close>, the returned node has one child per member,
  in member order; the child carries the member's key, the value and the type tag of the
  converted member value, and the children of the converted member value.
\<close>

theorem ParseNode_Object_children_keyed:
  "ChildItems (ParseNode sf (FJsonValueObject ms)) =
     map (\<lambda>(k, v). FTreeItem k (Value (ParseNode sf v)) (ValueType (ParseNode sf v))
                      (ChildItems (ParseNode sf v))) ms"
  by (simp add: ParseNode_Object)

text \<open>
  Claim C3. A string, number, boolean or null given to \<open>ParseNode\<close> becomes a leaf: empty
  key, no children, the type tag of the value, and as value the string's text, the
  sanitized number, \<open>true\<close> or \<open>false\<close>, or \<open>null\<close>.
\<close>

theorem ParseNode_primitive_leaf:
  "ParseNode sf (FJsonValueString s) =
     FTreeItem '''' s (JsonType (FJsonValueString s :: 'd FJsonValue)) [] \<and>
   JsonType (FJsonValueString s :: 'd FJsonValue) = EJson_String \<and>
   ParseNode sf (FJsonValueNumber d) =
     FTreeItem '''' (sf d) (JsonType (FJsonValueNumber d)) [] \<and>
   JsonType (FJsonValueNumber d) = EJson_Number \<and>
   ParseNode sf (FJsonValueBoolean True) =
     FTreeItem '''' ''true'' (JsonType (FJsonValueBoolean True :: 'd FJsonValue)) [] \<and>
   ParseNode sf (FJsonValueBoolean False) =
     FTreeItem '''' ''false'' (JsonType (FJsonValueBoolean False :: 'd FJsonValue)) [] \<and>
   JsonType (FJsonValueBoolean b :: 'd FJsonValue) = EJson_Boolean \<and>
   ParseNode sf FJsonValueNull =
     FTreeItem '''' ''null'' (JsonType (FJsonValueNull :: 'd FJsonValue)) [] \<and>
   JsonType (FJsonValueNull :: 'd FJsonValue) = EJson_Null"
  by (simp add: ParseNode_primitive)

section \<open>BuildTree\<close>

lemma BuildTree_Array_loop_items:
  "TreeItems (BuildTree_Array_loop E es w) = TreeItems w @ map (ParseNode (SanitizeFloat E)) es"
  by (induction es arbitrary: w) simp_all

lemma BuildTree_Object_loop_items:
  "TreeItems (BuildTree_Object_loop E ms w) =
     TreeItems w @
     map (\<lambda>(k, v). FTreeItem k (Value (ParseNode (SanitizeFloat E) v))
                      (ValueType (ParseNode (SanitizeFloat E) v))
                      (ChildItems (ParseNode (SanitizeFloat E) v))) ms"
  by (induction ms arbitrary: w)
     (auto simp add: Let_def ChildItems_Assign_def FTreeItem_KeyValue_def)

lemma BuildTree_items:
  "TreeItems (BuildTree E v w) =
     (case v of
        FJsonValueArray es \<Rightarrow> map (ParseNode (SanitizeFloat E)) es
      | FJsonValueObject ms \<Rightarrow>
          map (\<lambda>(k, v). FTreeItem k (Value (ParseNode (SanitizeFloat E) v))
                           (ValueType (ParseNode (SanitizeFloat E) v))
                           (ChildItems (ParseNode (SanitizeFloat E) v))) ms
      | _ \<Rightarrow> [ParseNode (SanitizeFloat E) v])"
  by (cases v)
     (simp_all add: BuildTree_def BuildTree_Array_loop_items BuildTree_Object_loop_items)

text \<open>
  The array branch of \<open>BuildTree\<close> adds one node per element, in element order. (No call
  from \<open>InitJsonTree\<close> reaches this branch, see below.)
\<close>

lemma BuildTree_Array_branch:
  "TreeItems (BuildTree E (FJsonValueArray es) w) = map (ParseNode (SanitizeFloat E)) es"
  by (simp add: BuildTree_items)

section \<open>The colour of a value\<close>

text \<open>
  Claim C8. \<open>GetValueColorFromJsonType\<close> returns the widget's colour for strings, numbers,
  booleans and nulls, and the foreground colour for objects, arrays and \<open>None\<close>.
\<close>

theorem GetValueColorFromJsonType_table:
  "GetValueColorFromJsonType w EJson_String = StringValueColor w \<and>
   GetValueColorFromJsonType w EJson_Number = NumericValueColor w \<and>
   GetValueColorFromJsonType w EJson_Boolean = BooleanValueColor w \<and>
   GetValueColorFromJsonType w EJson_Null = NullValueColor w \<and>
   GetValueColorFromJsonType w EJson_Object = FSlateColor_UseForeground \<and>
   GetValueColorFromJsonType w EJson_Array = FSlateColor_UseForeground \<and>
   GetValueColorFromJsonType w EJson_None = FSlateColor_UseForeground"
  by (simp add: GetValueColorFromJsonType_def)

section \<open>The shape of the nodes\<close>

lemma Nodes_iff:
  "n \<in> set (Nodes t) \<longleftrightarrow> n = t \<or> (\<exists>c \<in> set (ChildItems t). n \<in> set (Nodes c))"
  by (cases t) auto

lemma self_in_Nodes: "t \<in> set (Nodes t)"
  by (cases t) simp

lemma keyed_copy_Shape_ok:
  assumes IH: "\<forall>n \<in> set (Nodes p). Shape_ok n"
    and n: "n \<in> set (Nodes (FTreeItem k (Value p) (ValueType p) (ChildItems p)))"
  shows "Shape_ok n"
proof (cases "n = FTreeItem k (Value p) (ValueType p) (ChildItems p)")
  case True
  have "Shape_ok p" using IH self_in_Nodes by blast
  then show ?thesis unfolding True by (simp add: Shape_ok_def)
next
  case False
  with n have "n \<in> set (Nodes p)"
    using Nodes_iff[of n "FTreeItem k (Value p) (ValueType p) (ChildItems p)"]
      Nodes_iff[of n p] by auto
  with IH show ?thesis by blast
qed

lemma ParseNode_Shape_ok: "\<forall>n \<in> set (Nodes (ParseNode sf v)). Shape_ok n"
proof (induction v)
  case (FJsonValueArray es)
  show ?case
  proof
    fix n assume n: "n \<in> set (Nodes (ParseNode sf (FJsonValueArray es)))"
    show "Shape_ok n"
    proof (cases "n = ParseNode sf (FJsonValueArray es)")
      case True
      then show ?thesis by (simp add: ParseNode_Array Shape_ok_def)
    next
      case False
      with n obtain c where c: "c \<in> set (ChildItems (ParseNode sf (FJsonValueArray es)))"
        and nc: "n \<in> set (Nodes c)"
        using Nodes_iff[of n "ParseNode sf (FJsonValueArray es)"] by blast
      from c obtain e where e: "e \<in> set es"
        and ce: "c \<in> set (if ChildItems (ParseNode sf e) \<noteq> [] then ChildItems (ParseNode sf e)
                           else [ParseNode sf e])"
        by (auto simp: ParseNode_Array)
      have "n \<in> set (Nodes (ParseNode sf e))"
      proof (cases "ChildItems (ParseNode sf e) \<noteq> []")
        case True
        with ce nc show ?thesis using Nodes_iff[of n "ParseNode sf e"] by auto
      next
        case False
        with ce nc show ?thesis by simp
      qed
      with FJsonValueArray.IH[OF e] show ?thesis by blast
    qed
  qed
next
  case (FJsonValueObject ms)
  show ?case
  proof
    fix n assume n: "n \<in> set (Nodes (ParseNode sf (FJsonValueObject ms)))"
    show "Shape_ok n"
    proof (cases "n = ParseNode sf (FJsonValueObject ms)")
      case True
      then show ?thesis by (simp add: ParseNode_Object Shape_ok_def)
    next
      case False
      with n obtain c where c: "c \<in> set (ChildItems (ParseNode sf (FJsonValueObject ms)))"
        and nc: "n \<in> set (Nodes c)"
        using Nodes_iff[of n "ParseNode sf (FJsonValueObject ms)"] by blast
      from c obtain k v where kv: "(k, v) \<in> set ms"
        and ce: "c = FTreeItem k (Value (ParseNode sf v)) (ValueType (ParseNode sf v))
                      (ChildItems (ParseNode sf v))"
        by (auto simp: ParseNode_Object)
      have "\<forall>n \<in> set (Nodes (ParseNode sf v)). Shape_ok n"
        using FJsonValueObject.IH[OF kv, of v] by simp
      then show ?thesis
        using nc unfolding ce by (rule keyed_copy_Shape_ok)
    qed
  qed
qed (simp_all add: ParseNode_primitive Shape_ok_def)

lemma BuildTree_Shape_ok:
  "\<forall>n \<in> set (concat (map Nodes (TreeItems (BuildTree E v w)))). Shape_ok n"
proof
  fix n assume "n \<in> set (concat (map Nodes (TreeItems (BuildTree E v w))))"
  then obtain r where r: "r \<in> set (TreeItems (BuildTree E v w))" and nr: "n \<in> set (Nodes r)"
    by auto
  show "Shape_ok n"
  proof (cases v)
    case (FJsonValueObject ms)
    with r obtain k x where
      ce: "r = FTreeItem k (Value (ParseNode (SanitizeFloat E) x))
                 (ValueType (ParseNode (SanitizeFloat E) x))
                 (ChildItems (ParseNode (SanitizeFloat E) x))"
      by (auto simp: BuildTree_items)
    have "\<forall>n \<in> set (Nodes (ParseNode (SanitizeFloat E) x)). Shape_ok n"
      by (rule ParseNode_Shape_ok)
    then show ?thesis
      using nr unfolding ce by (rule keyed_copy_Shape_ok)
  qed (use r nr ParseNode_Shape_ok in \<open>auto simp: BuildTree_items\<close>)
qed

lemma Shape_ok_explicit:
  "Shape_ok n \<Longrightarrow>
     (ChildItems n \<noteq> [] \<longrightarrow>
         (ValueType n = EJson_Object \<or> ValueType n = EJson_Array) \<and> Value n = '''') \<and>
     (ValueType n \<in> {EJson_String, EJson_Number, EJson_Boolean, EJson_Null, EJson_None} \<longrightarrow>
         ChildItems n = [])"
  by (auto simp: Shape_ok_def)

text \<open>
  Claim C9. In the node \<open>ParseNode\<close> returns and in the item list \<open>BuildTree\<close> leaves, every
  node with children is tagged object or array and has the empty value, and every node
  tagged string, number, boolean, null or none has no children.
\<close>

theorem ParseNode_BuildTree_node_shape:
  "(\<forall>n \<in> set (Nodes (ParseNode sf v)).
      (ChildItems n \<noteq> [] \<longrightarrow>
         (ValueType n = EJson_Object \<or> ValueType n = EJson_Array) \<and> Value n = '''') \<and>
      (ValueType n \<in> {EJson_String, EJson_Number, EJson_Boolean, EJson_Null, EJson_None} \<longrightarrow>
         ChildItems n = [])) \<and>
   (\<forall>n \<in> set (concat (map Nodes (TreeItems (BuildTree E v' w)))).
      (ChildItems n \<noteq> [] \<longrightarrow>
         (ValueType n = EJson_Object \<or> ValueType n = EJson_Array) \<and> Value n = '''') \<and>
      (ValueType n \<in> {EJson_String, EJson_Number, EJson_Boolean, EJson_Null, EJson_None} \<longrightarrow>
         ChildItems n = []))"
proof (rule conjI; rule ballI)
  fix n assume "n \<in> set (Nodes (ParseNode sf v))"
  then have "Shape_ok n" using ParseNode_Shape_ok by blast
  then show "(ChildItems n \<noteq> [] \<longrightarrow>
         (ValueType n = EJson_Object \<or> ValueType n = EJson_Array) \<and> Value n = '''') \<and>
      (ValueType n \<in> {EJson_String, EJson_Number, EJson_Boolean, EJson_Null, EJson_None} \<longrightarrow>
         ChildItems n = [])"
    by (rule Shape_ok_explicit)
next
  fix n assume "n \<in> set (concat (map Nodes (TreeItems (BuildTree E v' w))))"
  then have "Shape_ok n" using BuildTree_Shape_ok by blast
  then show "(ChildItems n \<noteq> [] \<longrightarrow>
         (ValueType n = EJson_Object \<or> ValueType n = EJson_Array) \<and> Value n = '''') \<and>
      (ValueType n \<in> {EJson_String, EJson_Number, EJson_Boolean, EJson_Null, EJson_None} \<longrightarrow>
         ChildItems n = [])"
    by (rule Shape_ok_explicit)
qed

text \<open>
  The theorem at the object \<open>{"a":[[1],true]}\<close>: its row \<open>a\<close> has two children, is tagged
  array and shows no value; the leaf \<open>1.0\<close> below it is tagged number and has no children.
\<close>

theorem ParseNode_BuildTree_node_shape_example:
  "TreeItems (BuildTree Example_Engine
      (FJsonValueObject [(''a'', FJsonValueArray
         [FJsonValueArray [FJsonValueNumber 1], FJsonValueBoolean True])]) Example_Widget) =
     [FTreeItem ''a'' [] EJson_Array
        [FTreeItem [] ''1.0'' EJson_Number [], FTreeItem [] ''true'' EJson_Boolean []]] \<and>
   Value (FTreeItem ''a'' [] EJson_Array
        [FTreeItem [] ''1.0'' EJson_Number [], FTreeItem [] ''true'' EJson_Boolean []]) = [] \<and>
   ChildItems (FTreeItem [] ''1.0'' EJson_Number []) = []"
  using ParseNode_BuildTree_node_shape[of "SanitizeFloat Example_Engine" FJsonValueNull
     Example_Engine
     "FJsonValueObject [(''a'', FJsonValueArray
         [FJsonValueArray [FJsonValueNumber 1], FJsonValueBoolean True])]" Example_Widget]
  by (simp add: BuildTree_items ParseNode_Array ParseNode_primitive Example_Engine_def)

section \<open>InitJsonTree\<close>

lemma IsValidJson_iff:
  "IsValidJson E s \<longleftrightarrow> (\<exists>ms. ReadJson E s = Some (FJsonValueObject ms))"
  by (auto simp: IsValidJson_def Deserialize_JsonObject_def
        split: option.splits FJsonValue.splits)

lemma ParseJsonContents_eq:
  "ParseJsonContents E Contents out =
     (case ReadJson E Contents of
        Some (FJsonValueObject ms) \<Rightarrow> (True, Some (FJsonValueObject ms))
      | _ \<Rightarrow> (False, out))"
  by (simp add: ParseJsonContents_def IsValidJson_def Deserialize_JsonObject_def
        Deserialize_JsonValue_def split: option.splits FJsonValue.splits)

lemma InitJsonTree_unreadable:
  "FileExists E s \<Longrightarrow> LoadFileToString E s = None \<Longrightarrow>
   InitJsonTree E s w = w\<lparr>JsonInput := s, JsonFilePath := s, bValidJson := False\<rparr>"
  by (simp add: InitJsonTree_def Let_def ReadJsonFile_def)

lemma InitJsonTree_file:
  "FileExists E s \<Longrightarrow> LoadFileToString E s = Some Contents \<Longrightarrow>
   InitJsonTree E s w =
     (case ReadJson E Contents of
        Some (FJsonValueObject ms) \<Rightarrow>
          BuildTree E (FJsonValueObject ms)
            (w\<lparr>JsonInput := s, JsonFilePath := s, JsonString := Contents, bValidJson := True,
               JsonValue := Some (FJsonValueObject ms)\<rparr>)
      | _ \<Rightarrow> w\<lparr>JsonInput := s, JsonFilePath := s, JsonString := Contents,
               bValidJson := True\<rparr>)"
  by (simp add: InitJsonTree_def Let_def ReadJsonFile_def ParseJsonContents_eq
        split: option.splits FJsonValue.splits)

lemma InitJsonTree_raw:
  "\<not> FileExists E s \<Longrightarrow>
   InitJsonTree E s w =
     (case ReadJson E s of
        Some (FJsonValueObject ms) \<Rightarrow>
          BuildTree E (FJsonValueObject ms)
            (w\<lparr>JsonInput := s, JsonString := s, bValidJson := True,
               JsonValue := Some (FJsonValueObject ms)\<rparr>)
      | _ \<Rightarrow> w\<lparr>bValidJson := False\<rparr>)"
  by (simp add: InitJsonTree_def Let_def ParseJsonContents_eq IsValidJson_iff
        split: option.splits FJsonValue.splits)

lemma BuildTree_Array_loop_JsonValue:
  "JsonValue (BuildTree_Array_loop E es w) = JsonValue w"
  by (induction es arbitrary: w) simp_all

lemma BuildTree_Object_loop_JsonValue:
  "JsonValue (BuildTree_Object_loop E ms w) = JsonValue w"
  by (induction ms arbitrary: w) (auto simp: Let_def)

lemma BuildTree_JsonValue:
  "JsonValue (BuildTree E v w) = JsonValue w"
  by (simp add: BuildTree_def Let_def BuildTree_Array_loop_JsonValue
        BuildTree_Object_loop_JsonValue)

text \<open>
  Claim C5, as the code has it. A raw string that is not a file path and that the reader
  does not give a root object for does not pass \<open>IsValidJson\<close>, which deserializes into a
  JSON object: \<open>InitJsonTree\<close> marks the input invalid and leaves the tree as it was. This
  covers every text of a single string, number, boolean or null, whether the reader
  reports an error on it or returns the primitive as the root. \<open>BuildTree\<close>, handed a
  string, number, boolean or null as root value, builds the single leaf row.
\<close>

theorem InitJsonTree_primitive_text_rejected:
  assumes "\<not> FileExists E s"
    and "\<forall>ms. ReadJson E s \<noteq> Some (FJsonValueObject ms)"
    and "JsonType v = EJson_String \<or> JsonType v = EJson_Number \<or>
         JsonType v = EJson_Boolean \<or> JsonType v = EJson_Null"
  shows "\<not> IsValidJson E s \<and> \<not> bValidJson (InitJsonTree E s w) \<and>
         TreeItems (InitJsonTree E s w) = TreeItems w \<and>
         TreeItems (BuildTree E v w') = [ParseNode (SanitizeFloat E) v] \<and>
         Key (ParseNode (SanitizeFloat E) v) = [] \<and>
         ChildItems (ParseNode (SanitizeFloat E) v) = []"
proof -
  have inv: "\<not> IsValidJson E s" using assms(2) by (simp add: IsValidJson_iff)
  have "InitJsonTree E s w = w\<lparr>bValidJson := False\<rparr>"
    using assms(1,2) by (simp add: InitJsonTree_raw split: option.splits FJsonValue.splits)
  then have rej: "\<not> bValidJson (InitJsonTree E s w)"
    "TreeItems (InitJsonTree E s w) = TreeItems w"
    by simp_all
  have leaf: "TreeItems (BuildTree E v w') = [ParseNode (SanitizeFloat E) v] \<and>
         Key (ParseNode (SanitizeFloat E) v) = [] \<and>
         ChildItems (ParseNode (SanitizeFloat E) v) = []"
    using assms(3) by (cases v) (simp_all add: BuildTree_items ParseNode_primitive)
  show ?thesis using inv rej leaf by simp
qed

text \<open>
  The theorem at two raw strings, neither a file path: \<open>true\<close>, which the example reader
  returns as the boolean, and \<open>null\<close>, on which it reports an error.
\<close>

theorem InitJsonTree_primitive_text_rejected_example:
  "\<not> FileExists Example_Engine ''true'' \<and>
   ReadJson Example_Engine ''true'' = Some (FJsonValueBoolean True) \<and>
   \<not> bValidJson (InitJsonTree Example_Engine ''true'' Example_Widget) \<and>
   TreeItems (InitJsonTree Example_Engine ''true'' Example_Widget) = TreeItems Example_Widget \<and>
   TreeItems (BuildTree Example_Engine (FJsonValueBoolean True) Example_Widget) =
     [FTreeItem [] ''true'' EJson_Boolean []] \<and>
   \<not> FileExists Example_Engine ''null'' \<and>
   ReadJson Example_Engine ''null'' = None \<and>
   \<not> bValidJson (InitJsonTree Example_Engine ''null'' Example_Widget) \<and>
   TreeItems (InitJsonTree Example_Engine ''null'' Example_Widget) = TreeItems Example_Widget \<and>
   TreeItems (BuildTree Example_Engine FJsonValueNull Example_Widget) =
     [FTreeItem [] ''null'' EJson_Null []]"
  using InitJsonTree_primitive_text_rejected[of Example_Engine "''true''"
          "FJsonValueBoolean True" Example_Widget Example_Widget]
        InitJsonTree_primitive_text_rejected[of Example_Engine "''null''"
          "FJsonValueNull" Example_Widget Example_Widget]
  by (simp add: Example_Engine_def ParseNode_primitive)

text \<open>
  Claim C5, as stated, fails at the raw strings \<open>true\<close> and \<open>null\<close>, neither a file path.
  Whether the reader returns the primitive (as the example reader does for \<open>true\<close>) or
  reports an error (as it does for \<open>null\<close>), the input is marked invalid and the widget
  keeps the row it had: it shows no leaf for the primitive.
\<close>

theorem InitJsonTree_primitive_text_no_leaf_example:
  "\<not> FileExists Example_Engine ''true'' \<and>
   ReadJson Example_Engine ''true'' = Some (FJsonValueBoolean True) \<and>
   \<not> IsValidJson Example_Engine ''true'' \<and>
   \<not> bValidJson (InitJsonTree Example_Engine ''true'' Example_Widget) \<and>
   TreeItems (InitJsonTree Example_Engine ''true'' Example_Widget) =
     [FTreeItem ''old'' ''row'' EJson_String []] \<and>
   TreeItems (InitJsonTree Example_Engine ''true'' Example_Widget) \<noteq>
     [ParseNode (SanitizeFloat Example_Engine) (FJsonValueBoolean True)] \<and>
   \<not> FileExists Example_Engine ''null'' \<and>
   ReadJson Example_Engine ''null'' = None \<and>
   \<not> IsValidJson Example_Engine ''null'' \<and>
   \<not> bValidJson (InitJsonTree Example_Engine ''null'' Example_Widget) \<and>
   TreeItems (InitJsonTree Example_Engine ''null'' Example_Widget) =
     [FTreeItem ''old'' ''row'' EJson_String []] \<and>
   TreeItems (InitJsonTree Example_Engine ''null'' Example_Widget) \<noteq>
     [ParseNode (SanitizeFloat Example_Engine) FJsonValueNull]"
  by (simp add: InitJsonTree_raw IsValidJson_iff Example_Engine_def Example_Widget_def
        ParseNode_primitive)




text \<open>
  Claim C6. The item list \<open>BuildTree\<close> leaves does not depend on the widget it starts from.
  For an input that parses (a readable file whose contents pass \<open>IsValidJson\<close>, or a raw
  string that passes it), two calls of \<open>InitJsonTree\<close> from any two widget states leave the
  same item list, namely the one \<open>BuildTree\<close> builds from the parsed root value.
\<close>

theorem InitJsonTree_history_free:
  fixes E :: "'d Engine" and w1 w2 w3 :: "('d, 'c) UJsonTreeViewerWidget"
  assumes "if FileExists E s
           then (case LoadFileToString E s of None \<Rightarrow> False
                 | Some Contents \<Rightarrow> IsValidJson E Contents)
           else IsValidJson E s"
  shows "TreeItems (BuildTree E v w1) = TreeItems (BuildTree E v w2) \<and>
         TreeItems (InitJsonTree E s w1) = TreeItems (InitJsonTree E s w2) \<and>
         (\<exists>root. JsonValue (InitJsonTree E s w1) = Some root \<and>
                 JsonValue (InitJsonTree E s w2) = Some root \<and>
                 TreeItems (InitJsonTree E s w1) = TreeItems (BuildTree E root w3))"
proof (cases "FileExists E s")
  case True
  with assms obtain Contents ms where ld: "LoadFileToString E s = Some Contents"
    and rd: "ReadJson E Contents = Some (FJsonValueObject ms)"
    by (auto simp: IsValidJson_iff split: option.splits)
  have "InitJsonTree E s w =
          BuildTree E (FJsonValueObject ms)
            (w\<lparr>JsonInput := s, JsonFilePath := s, JsonString := Contents, bValidJson := True,
               JsonValue := Some (FJsonValueObject ms)\<rparr>)"
    for w :: "('d, 'c) UJsonTreeViewerWidget"
    using InitJsonTree_file[OF True ld, of w] rd by simp
  then show ?thesis
    by (simp add: BuildTree_JsonValue BuildTree_items)
next
  case False
  with assms obtain ms where rd: "ReadJson E s = Some (FJsonValueObject ms)"
    by (auto simp: IsValidJson_iff)
  have "InitJsonTree E s w =
          BuildTree E (FJsonValueObject ms)
            (w\<lparr>JsonInput := s, JsonString := s, bValidJson := True,
               JsonValue := Some (FJsonValueObject ms)\<rparr>)"
    for w :: "('d, 'c) UJsonTreeViewerWidget"
    using InitJsonTree_raw[OF False, of w] rd by simp
  then show ?thesis
    by (simp add: BuildTree_JsonValue BuildTree_items)
qed

theorem InitJsonTree_history_free_example:
  "FileExists Example_Engine ''tree.json'' \<and>
   LoadFileToString Example_Engine ''tree.json'' \<noteq> None \<and>
   IsValidJson Example_Engine (the (LoadFileToString Example_Engine ''tree.json'')) \<and>
   TreeItems (InitJsonTree Example_Engine ''tree.json'' Example_Widget) =
   TreeItems (InitJsonTree Example_Engine ''tree.json'' (Example_Widget\<lparr>TreeItems := []\<rparr>))"
  using InitJsonTree_history_free[of Example_Engine "''tree.json''" FJsonValueNull
          Example_Widget "Example_Widget\<lparr>TreeItems := []\<rparr>" Example_Widget]
  by (simp add: Example_Engine_def IsValidJson_iff)

text \<open>
  Claim C10. When the input is neither an existing file nor a string that passes
  \<open>IsValidJson\<close>, or is a file that cannot be read, or is a file whose contents
  \<open>ParseJsonContents\<close> rejects, \<open>InitJsonTree\<close> leaves the item list as it was.
\<close>

theorem InitJsonTree_failure_keeps_tree:
  assumes "(\<not> FileExists E s \<and> \<not> IsValidJson E s) \<or>
           (FileExists E s \<and> LoadFileToString E s = None) \<or>
           (FileExists E s \<and> LoadFileToString E s = Some Contents \<and>
              \<not> fst (ParseJsonContents E Contents (JsonValue w)))"
  shows "TreeItems (InitJsonTree E s w) = TreeItems w"
  using assms
proof (elim disjE conjE)
  assume "\<not> FileExists E s" "\<not> IsValidJson E s"
  then show ?thesis
    by (simp add: InitJsonTree_raw IsValidJson_iff split: option.splits FJsonValue.splits)
next
  assume "FileExists E s" "LoadFileToString E s = None"
  then show ?thesis by (simp add: InitJsonTree_unreadable)
next
  assume "FileExists E s" "LoadFileToString E s = Some Contents"
    "\<not> fst (ParseJsonContents E Contents (JsonValue w))"
  then show ?thesis
    by (simp add: InitJsonTree_file ParseJsonContents_eq split: option.splits FJsonValue.splits)
qed

theorem InitJsonTree_failure_keeps_tree_example:
  "\<not> FileExists Example_Engine ''[[1]]'' \<and> \<not> IsValidJson Example_Engine ''[[1]]'' \<and>
   TreeItems (InitJsonTree Example_Engine ''[[1]]'' Example_Widget) = TreeItems Example_Widget \<and>
   FileExists Example_Engine ''locked.json'' \<and>
   LoadFileToString Example_Engine ''locked.json'' = None \<and>
   TreeItems (InitJsonTree Example_Engine ''locked.json'' Example_Widget) =
     TreeItems Example_Widget \<and>
   FileExists Example_Engine ''broken.json'' \<and>
   LoadFileToString Example_Engine ''broken.json'' \<noteq> None \<and>
   TreeItems (InitJsonTree Example_Engine ''broken.json'' Example_Widget) =
     TreeItems Example_Widget \<and>
   TreeItems Example_Widget = [FTreeItem ''old'' ''row'' EJson_String []]"
  using
    InitJsonTree_failure_keeps_tree[where E = Example_Engine and s = "''[[1]]''"
      and w = Example_Widget]
    InitJsonTree_failure_keeps_tree[where E = Example_Engine and s = "''locked.json''"
      and w = Example_Widget]
    InitJsonTree_failure_keeps_tree[where E = Example_Engine and s = "''broken.json''"
      and w = Example_Widget
      and Contents = "the (LoadFileToString Example_Engine ''broken.json'')"]
  by (simp add: Example_Engine_def IsValidJson_iff ParseJsonContents_eq Example_Widget_def)

section \<open>Trees and forests on the heap\<close>

lemma Tree_Forest_closed:
  "Tree h a A t \<Longrightarrow>
     a \<in> A \<and> (\<forall>p \<in> A. p < length h \<and> set (cell_ChildItems (h ! p)) \<subseteq> A)"
  "Forest h as S ts \<Longrightarrow>
     set as \<subseteq> S \<and> (\<forall>p \<in> S. p < length h \<and> set (cell_ChildItems (h ! p)) \<subseteq> S)"
  by (induction rule: Tree_Forest.inducts) auto

lemma Tree_Forest_frame:
  "Tree h a A t \<Longrightarrow> (\<forall>x \<in> A. x < length h' \<and> h' ! x = h ! x) \<Longrightarrow> Tree h' a A t"
  "Forest h as S ts \<Longrightarrow> (\<forall>x \<in> S. x < length h' \<and> h' ! x = h ! x) \<Longrightarrow> Forest h' as S ts"
proof (induction rule: Tree_Forest.inducts)
  case (Forest_Nil h)
  show ?case by (rule Tree_Forest.Forest_Nil)
next
  case (Forest_Cons h a A t as B ts)
  then show ?case by (auto intro: Tree_Forest.Forest_Cons)
next
  case (Tree_Node a h B cs)
  then have "a < length h'" and eq: "h' ! a = h ! a" and "Forest h' (cell_ChildItems (h' ! a)) B cs"
    by auto
  then have "Tree h' a (insert a B)
       (FTreeItem (cell_Key (h' ! a)) (cell_Value (h' ! a)) (cell_ValueType (h' ! a)) cs)"
    using Tree_Node.hyps(3) by (intro Tree_Forest.Tree_Node)
  then show ?case by (simp add: eq)
qed

lemma Forest_length: "Forest h as S ts \<Longrightarrow> length as = length ts"
  by (induction as arbitrary: S ts) (auto elim: Forest.cases)

lemma Forest_append:
  "Forest h as A ts \<Longrightarrow> Forest h bs B us \<Longrightarrow> A \<inter> B = {} \<Longrightarrow>
   Forest h (as @ bs) (A \<union> B) (ts @ us)"
proof (induction as arbitrary: A ts)
  case Nil
  then show ?case by (auto elim: Forest.cases)
next
  case (Cons a as)
  from Cons.prems(1) obtain A1 t A2 ts' where
    A: "A = A1 \<union> A2" and ts: "ts = t # ts'" and t: "Tree h a A1 t"
    and f: "Forest h as A2 ts'" and d: "A1 \<inter> A2 = {}"
    by (auto elim: Forest.cases)
  have "Forest h (as @ bs) (A2 \<union> B) (ts' @ us)"
    using Cons.IH[OF f Cons.prems(2)] Cons.prems(3) A by auto
  then have "Forest h (a # as @ bs) (A1 \<union> (A2 \<union> B)) (t # ts' @ us)"
    using t d Cons.prems(3) A by (intro Forest_Cons) auto
  then show ?case by (simp add: A ts Un_assoc)
qed

lemma Forest_single: "Tree h a A t \<Longrightarrow> Forest h [a] A [t]"
  using Forest_Cons[of h a A t "[]" "{}" "[]"] Forest_Nil[of h] by simp

lemma Tree_inv:
  assumes "Tree h a A t"
  shows "\<exists>B. A = insert a B \<and> a \<notin> B \<and> a < length h \<and>
       Forest h (cell_ChildItems (h ! a)) B (ChildItems t) \<and>
       Key t = cell_Key (h ! a) \<and> Value t = cell_Value (h ! a) \<and>
       ValueType t = cell_ValueType (h ! a)"
  using assms
proof (cases rule: Tree.cases)
  case (Tree_Node B cs)
  then show ?thesis by auto
qed

section \<open>ParseNode on the heap builds a tree\<close>

lemma ParseNode_heap_Array:
  "ParseNode_heap sf (FJsonValueArray es) h =
     (length h, ParseNode_Array_loop_heap sf es (length h)
        (h @ [\<lparr>cell_Key = '''', cell_Value = '''', cell_ValueType = EJson_Array,
               cell_ChildItems = []\<rparr>]))"
  by (simp add: ParseNode_heap.simps[of sf "FJsonValueArray es"] MakeShared_def)

lemma ParseNode_heap_Object:
  "ParseNode_heap sf (FJsonValueObject ms) h =
     (length h, ParseNode_Object_loop_heap sf ms (length h)
        (h @ [\<lparr>cell_Key = '''', cell_Value = '''', cell_ValueType = EJson_Object,
               cell_ChildItems = []\<rparr>]))"
  by (simp add: ParseNode_heap.simps[of sf "FJsonValueObject ms"] MakeShared_def)

lemma ParseNode_heap_primitive:
  "ParseNode_heap sf (FJsonValueString s) h =
     (length h, h @ [\<lparr>cell_Key = '''', cell_Value = s, cell_ValueType = EJson_String,
                      cell_ChildItems = []\<rparr>])"
  "ParseNode_heap sf (FJsonValueNumber d) h =
     (length h, h @ [\<lparr>cell_Key = '''', cell_Value = sf d, cell_ValueType = EJson_Number,
                      cell_ChildItems = []\<rparr>])"
  "ParseNode_heap sf (FJsonValueBoolean b) h =
     (length h, h @ [\<lparr>cell_Key = '''', cell_Value = (if b then ''true'' else ''false''),
                      cell_ValueType = EJson_Boolean, cell_ChildItems = []\<rparr>])"
  "ParseNode_heap sf FJsonValueNull h =
     (length h, h @ [\<lparr>cell_Key = '''', cell_Value = ''null'', cell_ValueType = EJson_Null,
                      cell_ChildItems = []\<rparr>])"
  "ParseNode_heap sf FJsonValueNone h =
     (length h, h @ [\<lparr>cell_Key = '''', cell_Value = '''', cell_ValueType = EJson_None,
                      cell_ChildItems = []\<rparr>])"
  by (simp_all add: ParseNode_heap.simps[of sf] MakeShared_def)

lemma leaf_Tree:
  "Tree (h @ [\<lparr>cell_Key = k, cell_Value = v, cell_ValueType = ty, cell_ChildItems = []\<rparr>])
     (length h) {length h} (FTreeItem k v ty [])"
  using Tree_Node[of "length h"
      "h @ [\<lparr>cell_Key = k, cell_Value = v, cell_ValueType = ty, cell_ChildItems = []\<rparr>]"
      "{}" "[]"] Forest_Nil
  by simp

lemma ParseNode_heap_ok_leaf:
  assumes "ParseNode_heap sf v h =
      (length h, h @ [\<lparr>cell_Key = k, cell_Value = x, cell_ValueType = ty,
                       cell_ChildItems = []\<rparr>])"
    and "ParseNode sf v = FTreeItem k x ty []"
  shows "ParseNode_heap_ok sf v h"
  unfolding ParseNode_heap_ok_def assms
  by (simp add: nth_append) (rule exI[of _ "{length h}"], simp add: leaf_Tree)

lemma ParseNode_heap_ok_primitive:
  "ParseNode_heap_ok sf (FJsonValueString s) h"
  "ParseNode_heap_ok sf (FJsonValueNumber d) h"
  "ParseNode_heap_ok sf (FJsonValueBoolean b) h"
  "ParseNode_heap_ok sf FJsonValueNull h"
  "ParseNode_heap_ok sf FJsonValueNone h"
  by (rule ParseNode_heap_ok_leaf, rule ParseNode_heap_primitive, rule ParseNode_primitive)+

lemma ParseNode_heap_ok_D:
  assumes "ParseNode_heap_ok sf v h"
  obtains h1 A where "ParseNode_heap sf v h = (length h, h1)"
    and "length h < length h1" and "\<forall>x < length h. h1 ! x = h ! x"
    and "Tree h1 (length h) A (ParseNode sf v)" and "A \<subseteq> {length h..<length h1}"
  using assms unfolding ParseNode_heap_ok_def
  by (cases "ParseNode_heap sf v h") auto

lemma ParseNode_Array_loop_heap_Forest:
  assumes "\<forall>e \<in> set es. \<forall>h. ParseNode_heap_ok sf e h"
    and "Node < length h"
    and "Forest h (cell_ChildItems (h ! Node)) S cs"
    and "S \<subseteq> {Suc Node..<length h}"
  shows "\<exists>S'. length h \<le> length (ParseNode_Array_loop_heap sf es Node h) \<and>
      (\<forall>x < Node. ParseNode_Array_loop_heap sf es Node h ! x = h ! x) \<and>
      cell_Key (ParseNode_Array_loop_heap sf es Node h ! Node) = cell_Key (h ! Node) \<and>
      cell_Value (ParseNode_Array_loop_heap sf es Node h ! Node) = cell_Value (h ! Node) \<and>
      cell_ValueType (ParseNode_Array_loop_heap sf es Node h ! Node) =
        cell_ValueType (h ! Node) \<and>
      Forest (ParseNode_Array_loop_heap sf es Node h)
        (cell_ChildItems (ParseNode_Array_loop_heap sf es Node h ! Node)) S'
        (cs @ concat (map (\<lambda>e. if ChildItems (ParseNode sf e) \<noteq> []
                                 then ChildItems (ParseNode sf e) else [ParseNode sf e]) es)) \<and>
      S' \<subseteq> {Suc Node..<length (ParseNode_Array_loop_heap sf es Node h)}"
  using assms
proof (induction es arbitrary: h S cs)
  case Nil
  then show ?case by auto
next
  case (Cons e es)
  have "ParseNode_heap_ok sf e h" using Cons.prems(1) by simp
  then obtain h1 A where P: "ParseNode_heap sf e h = (length h, h1)"
    and len: "length h < length h1" and fr: "\<forall>x < length h. h1 ! x = h ! x"
    and T: "Tree h1 (length h) A (ParseNode sf e)" and A: "A \<subseteq> {length h..<length h1}"
    by (rule ParseNode_heap_ok_D)
  from Tree_inv[OF T] obtain B where AB: "A = insert (length h) B"
    and F: "Forest h1 (cell_ChildItems (h1 ! length h)) B (ChildItems (ParseNode sf e))"
    by blast
  have Node1: "h1 ! Node = h ! Node" using fr Cons.prems(2) by simp
  have FS: "Forest h1 (cell_ChildItems (h1 ! Node)) S cs"
    unfolding Node1
    by (rule Tree_Forest_frame(2)[OF Cons.prems(3)]) (use fr len Cons.prems(4) in auto)
  define kids where "kids =
    (if length (cell_ChildItems (h1 ! length h)) > 0 then cell_ChildItems (h1 ! length h)
     else [length h])"
  define K where "K = (if length (cell_ChildItems (h1 ! length h)) > 0 then B else A)"
  define ks where "ks = (if ChildItems (ParseNode sf e) \<noteq> [] then ChildItems (ParseNode sf e)
                         else [ParseNode sf e])"
  define h2 where "h2 = h1[Node := (h1 ! Node)\<lparr>cell_ChildItems :=
                      cell_ChildItems (h1 ! Node) @ kids\<rparr>]"
  have step: "ParseNode_Array_loop_heap sf (e # es) Node h =
              ParseNode_Array_loop_heap sf es Node h2"
    by (simp add: P h2_def kids_def)
  have cond: "(length (cell_ChildItems (h1 ! length h)) > 0) = (ChildItems (ParseNode sf e) \<noteq> [])"
    using Forest_length[OF F] by auto
  have Fk: "Forest h1 kids K ks"
    unfolding kids_def K_def ks_def using F Forest_single[OF T] cond by auto
  have KA: "K \<subseteq> A" unfolding K_def AB by auto
  have Klow: "\<And>x. x \<in> K \<Longrightarrow> length h \<le> x \<and> x < length h1"
    using KA A by fastforce
  have Shigh: "\<And>x. x \<in> S \<Longrightarrow> Suc Node \<le> x \<and> x < length h"
    using Cons.prems(4) by fastforce
  have disj: "S \<inter> K = {}" using Klow Shigh by fastforce
  have F1: "Forest h1 (cell_ChildItems (h1 ! Node) @ kids) (S \<union> K) (cs @ ks)"
    by (rule Forest_append[OF FS Fk disj])
  have Node_lt: "Node < length h1" using Cons.prems(2) len by simp
  have kids2: "cell_ChildItems (h2 ! Node) = cell_ChildItems (h1 ! Node) @ kids"
    unfolding h2_def using Node_lt by simp
  have len2: "length h2 = length h1" unfolding h2_def by simp
  have SK: "S \<union> K \<subseteq> {Suc Node..<length h2}"
    using Klow Shigh Cons.prems(2) len len2 by fastforce
  have F2: "Forest h2 (cell_ChildItems (h2 ! Node)) (S \<union> K) (cs @ ks)"
    unfolding kids2
    by (rule Tree_Forest_frame(2)[OF F1]) (use SK len2 in \<open>auto simp: h2_def\<close>)
  have Node2: "Node < length h2" using Node_lt len2 by simp
  have IH': "\<forall>e \<in> set es. \<forall>h. ParseNode_heap_ok sf e h"
    using Cons.prems(1) by simp
  from Cons.IH[OF IH' Node2 F2 SK] obtain S' where
    r1: "length h2 \<le> length (ParseNode_Array_loop_heap sf es Node h2)"
    and r2: "\<forall>x < Node. ParseNode_Array_loop_heap sf es Node h2 ! x = h2 ! x"
    and r3: "cell_Key (ParseNode_Array_loop_heap sf es Node h2 ! Node) = cell_Key (h2 ! Node)"
      "cell_Value (ParseNode_Array_loop_heap sf es Node h2 ! Node) = cell_Value (h2 ! Node)"
      "cell_ValueType (ParseNode_Array_loop_heap sf es Node h2 ! Node) =
         cell_ValueType (h2 ! Node)"
    and r4: "Forest (ParseNode_Array_loop_heap sf es Node h2)
        (cell_ChildItems (ParseNode_Array_loop_heap sf es Node h2 ! Node)) S'
        ((cs @ ks) @ concat (map (\<lambda>e. if ChildItems (ParseNode sf e) \<noteq> []
                                 then ChildItems (ParseNode sf e) else [ParseNode sf e]) es))"
    and r5: "S' \<subseteq> {Suc Node..<length (ParseNode_Array_loop_heap sf es Node h2)}"
    by blast
  have below: "\<forall>x < Node. h2 ! x = h ! x"
    using fr Cons.prems(2) by (auto simp: h2_def)
  have fields: "cell_Key (h2 ! Node) = cell_Key (h ! Node)"
    "cell_Value (h2 ! Node) = cell_Value (h ! Node)"
    "cell_ValueType (h2 ! Node) = cell_ValueType (h ! Node)"
    using Node_lt Node1 by (simp_all add: h2_def)
  show ?case
    unfolding step
    apply (rule exI[of _ S'])
    using r1 r2 r3 r4 r5 below fields len len2
    by (simp add: ks_def)
qed

lemma ParseNode_Object_loop_heap_Forest:
  assumes "\<forall>m \<in> set ms. \<forall>h. ParseNode_heap_ok sf (snd m) h"
    and "Node < length h"
    and "Forest h (cell_ChildItems (h ! Node)) S cs"
    and "S \<subseteq> {Suc Node..<length h}"
  shows "\<exists>S'. length h \<le> length (ParseNode_Object_loop_heap sf ms Node h) \<and>
      (\<forall>x < Node. ParseNode_Object_loop_heap sf ms Node h ! x = h ! x) \<and>
      cell_Key (ParseNode_Object_loop_heap sf ms Node h ! Node) = cell_Key (h ! Node) \<and>
      cell_Value (ParseNode_Object_loop_heap sf ms Node h ! Node) = cell_Value (h ! Node) \<and>
      cell_ValueType (ParseNode_Object_loop_heap sf ms Node h ! Node) =
        cell_ValueType (h ! Node) \<and>
      Forest (ParseNode_Object_loop_heap sf ms Node h)
        (cell_ChildItems (ParseNode_Object_loop_heap sf ms Node h ! Node)) S'
        (cs @ map (\<lambda>(k, v). FTreeItem k (Value (ParseNode sf v)) (ValueType (ParseNode sf v))
                                (ChildItems (ParseNode sf v))) ms) \<and>
      S' \<subseteq> {Suc Node..<length (ParseNode_Object_loop_heap sf ms Node h)}"
  using assms
proof (induction ms arbitrary: h S cs)
  case Nil
  then show ?case by auto
next
  case (Cons m ms)
  obtain k v where m: "m = (k, v)" by (cases m)
  have "ParseNode_heap_ok sf v h" using Cons.prems(1) m by simp
  then obtain h1 A where P: "ParseNode_heap sf v h = (length h, h1)"
    and len: "length h < length h1" and fr: "\<forall>x < length h. h1 ! x = h ! x"
    and T: "Tree h1 (length h) A (ParseNode sf v)" and A: "A \<subseteq> {length h..<length h1}"
    by (rule ParseNode_heap_ok_D)
  from Tree_inv[OF T] obtain B where AB: "A = insert (length h) B"
    and F: "Forest h1 (cell_ChildItems (h1 ! length h)) B (ChildItems (ParseNode sf v))"
    and val: "Value (ParseNode sf v) = cell_Value (h1 ! length h)"
    and ty: "ValueType (ParseNode sf v) = cell_ValueType (h1 ! length h)"
    by blast
  define c where "c = \<lparr>cell_Key = k, cell_Value = cell_Value (h1 ! length h),
      cell_ValueType = cell_ValueType (h1 ! length h),
      cell_ChildItems = cell_ChildItems (h1 ! length h)\<rparr>"
  define h3 where "h3 = h1 @ [c]"
  define h4 where "h4 = h3[Node := (h3 ! Node)\<lparr>cell_ChildItems :=
                      cell_ChildItems (h3 ! Node) @ [length h1]\<rparr>]"
  have Node_lt: "Node < length h1" using Cons.prems(2) len by simp
  have step: "ParseNode_Object_loop_heap sf (m # ms) Node h =
              ParseNode_Object_loop_heap sf ms Node h4"
    using len Node_lt
    by (cases "cell_ChildItems (h1 ! length h) = []")
       (simp_all add: m P MakeShared_def nth_append h4_def h3_def c_def)
  have Node1: "h1 ! Node = h ! Node" using fr Cons.prems(2) by simp
  have Node3: "h3 ! Node = h ! Node" using Node1 Node_lt by (simp add: h3_def nth_append)
  have Blow: "\<And>x. x \<in> B \<Longrightarrow> length h \<le> x \<and> x < length h1"
    using AB A by fastforce
  have Shigh: "\<And>x. x \<in> S \<Longrightarrow> Suc Node \<le> x \<and> x < length h"
    using Cons.prems(4) by fastforce
  have frS: "\<forall>x \<in> S. x < length h3 \<and> h3 ! x = h ! x"
  proof
    fix x assume "x \<in> S"
    then have "x < length h" using Shigh by blast
    then show "x < length h3 \<and> h3 ! x = h ! x"
      using fr len by (simp add: h3_def nth_append)
  qed
  have FS: "Forest h3 (cell_ChildItems (h3 ! Node)) S cs"
    unfolding Node3
    by (rule Tree_Forest_frame(2)[OF Cons.prems(3) frS])
  have FB: "Forest h3 (cell_ChildItems (h3 ! length h1)) B (ChildItems (ParseNode sf v))"
  proof -
    have "cell_ChildItems (h3 ! length h1) = cell_ChildItems (h1 ! length h)"
      by (simp add: h3_def c_def)
    moreover have "\<forall>x \<in> B. x < length h3 \<and> h3 ! x = h1 ! x"
    proof
      fix x assume "x \<in> B"
      then have "x < length h1" using Blow by blast
      then show "x < length h3 \<and> h3 ! x = h1 ! x"
        by (simp add: h3_def nth_append)
    qed
    then have "Forest h3 (cell_ChildItems (h1 ! length h)) B (ChildItems (ParseNode sf v))"
      by (rule Tree_Forest_frame(2)[OF F])
    ultimately show ?thesis by simp
  qed
  have TC: "Tree h3 (length h1) (insert (length h1) B)
      (FTreeItem k (Value (ParseNode sf v)) (ValueType (ParseNode sf v))
         (ChildItems (ParseNode sf v)))"
  proof -
    have "length h1 < length h3" by (simp add: h3_def)
    moreover have "length h1 \<notin> B" using Blow by fastforce
    ultimately have "Tree h3 (length h1) (insert (length h1) B)
       (FTreeItem (cell_Key (h3 ! length h1)) (cell_Value (h3 ! length h1))
          (cell_ValueType (h3 ! length h1)) (ChildItems (ParseNode sf v)))"
      using FB by (intro Tree_Node)
    then show ?thesis by (simp add: h3_def c_def val ty)
  qed
  have disj: "S \<inter> insert (length h1) B = {}" using Blow Shigh len by fastforce
  have F1: "Forest h3 (cell_ChildItems (h3 ! Node) @ [length h1]) (S \<union> insert (length h1) B)
      (cs @ [FTreeItem k (Value (ParseNode sf v)) (ValueType (ParseNode sf v))
         (ChildItems (ParseNode sf v))])"
    by (rule Forest_append[OF FS Forest_single[OF TC] disj])
  have len3: "length h3 = Suc (length h1)" by (simp add: h3_def)
  have len4: "length h4 = Suc (length h1)" by (simp add: h4_def h3_def)
  have kids4: "cell_ChildItems (h4 ! Node) = cell_ChildItems (h3 ! Node) @ [length h1]"
    unfolding h4_def using Node_lt len3 by simp
  have SK: "S \<union> insert (length h1) B \<subseteq> {Suc Node..<length h4}"
    using Blow Shigh Cons.prems(2) len len4 by fastforce
  have fr4: "\<forall>x \<in> S \<union> insert (length h1) B. x < length h4 \<and> h4 ! x = h3 ! x"
  proof
    fix x assume "x \<in> S \<union> insert (length h1) B"
    then have "Suc Node \<le> x \<and> x < length h4" using SK by fastforce
    then show "x < length h4 \<and> h4 ! x = h3 ! x" by (simp add: h4_def)
  qed
  have F2: "Forest h4 (cell_ChildItems (h4 ! Node)) (S \<union> insert (length h1) B)
      (cs @ [FTreeItem k (Value (ParseNode sf v)) (ValueType (ParseNode sf v))
         (ChildItems (ParseNode sf v))])"
    unfolding kids4
    by (rule Tree_Forest_frame(2)[OF F1 fr4])
  have Node4: "Node < length h4" using Node_lt len4 by simp
  have IH': "\<forall>m \<in> set ms. \<forall>h. ParseNode_heap_ok sf (snd m) h"
    using Cons.prems(1) by simp
  from Cons.IH[OF IH' Node4 F2 SK] obtain S' where
    r1: "length h4 \<le> length (ParseNode_Object_loop_heap sf ms Node h4)"
    and r2: "\<forall>x < Node. ParseNode_Object_loop_heap sf ms Node h4 ! x = h4 ! x"
    and r3: "cell_Key (ParseNode_Object_loop_heap sf ms Node h4 ! Node) = cell_Key (h4 ! Node)"
      "cell_Value (ParseNode_Object_loop_heap sf ms Node h4 ! Node) = cell_Value (h4 ! Node)"
      "cell_ValueType (ParseNode_Object_loop_heap sf ms Node h4 ! Node) =
         cell_ValueType (h4 ! Node)"
    and r4: "Forest (ParseNode_Object_loop_heap sf ms Node h4)
        (cell_ChildItems (ParseNode_Object_loop_heap sf ms Node h4 ! Node)) S'
        ((cs @ [FTreeItem k (Value (ParseNode sf v)) (ValueType (ParseNode sf v))
                  (ChildItems (ParseNode sf v))]) @
         map (\<lambda>(k, v). FTreeItem k (Value (ParseNode sf v)) (ValueType (ParseNode sf v))
                          (ChildItems (ParseNode sf v))) ms)"
    and r5: "S' \<subseteq> {Suc Node..<length (ParseNode_Object_loop_heap sf ms Node h4)}"
    by blast
  have below: "\<forall>x < Node. h4 ! x = h ! x"
    using fr Cons.prems(2) Node_lt by (auto simp: h4_def h3_def nth_append)
  have fields: "cell_Key (h4 ! Node) = cell_Key (h ! Node)"
    "cell_Value (h4 ! Node) = cell_Value (h ! Node)"
    "cell_ValueType (h4 ! Node) = cell_ValueType (h ! Node)"
    using Node_lt Node3 len3 by (simp_all add: h4_def)
  show ?case
    unfolding step
    apply (rule exI[of _ S'])
    using r1 r2 r3 r4 r5 below fields len len4
    by (simp add: m)
qed

lemma ParseNode_heap_ok_composite:
  fixes h :: heap and c :: FTreeItem_cell
  defines "Node \<equiv> length h"
  assumes c: "cell_ChildItems c = []"
    and run: "ParseNode_heap sf v h = (Node, h')"
    and len: "Suc Node \<le> length h'"
    and below: "\<forall>x < Node. h' ! x = (h @ [c]) ! x"
    and F: "Forest h' (cell_ChildItems (h' ! Node)) S' cs"
    and S': "S' \<subseteq> {Suc Node..<length h'}"
    and t: "ParseNode sf v =
        FTreeItem (cell_Key (h' ! Node)) (cell_Value (h' ! Node)) (cell_ValueType (h' ! Node)) cs"
  shows "ParseNode_heap_ok sf v h"
proof -
  have "Node \<notin> S'" using S' by fastforce
  then have "Tree h' Node (insert Node S') (ParseNode sf v)"
    unfolding t using len F by (intro Tree_Node) auto
  moreover have "insert Node S' \<subseteq> {length h..<length h'}"
    using S' len by (fastforce simp: Node_def)
  moreover have "\<forall>x < length h. h' ! x = h ! x"
    using below by (simp add: Node_def nth_append)
  ultimately show ?thesis
    unfolding ParseNode_heap_ok_def run using len by (auto simp: Node_def)
qed

lemma ParseNode_heap_ok_all: "ParseNode_heap_ok sf v h"
proof (induction v arbitrary: h)
  case (FJsonValueArray es)
  define c where "c = \<lparr>cell_Key = '''', cell_Value = '''', cell_ValueType = EJson_Array,
                        cell_ChildItems = []\<rparr>"
  define h' where "h' = ParseNode_Array_loop_heap sf es (length h) (h @ [c])"
  have IH: "\<forall>e \<in> set es. \<forall>h. ParseNode_heap_ok sf e h"
    using FJsonValueArray.IH by blast
  have F0: "Forest (h @ [c]) (cell_ChildItems ((h @ [c]) ! length h)) {} []"
    by (simp add: c_def Forest_Nil)
  have N0: "length h < length (h @ [c])" by simp
  have S0: "{} \<subseteq> {Suc (length h)..<length (h @ [c])}" by simp
  from ParseNode_Array_loop_heap_Forest[OF IH N0 F0 S0]
  obtain S' where r1: "length (h @ [c]) \<le> length h'"
    and r2: "\<forall>x < length h. h' ! x = (h @ [c]) ! x"
    and r3: "cell_Key (h' ! length h) = cell_Key ((h @ [c]) ! length h)"
      "cell_Value (h' ! length h) = cell_Value ((h @ [c]) ! length h)"
      "cell_ValueType (h' ! length h) = cell_ValueType ((h @ [c]) ! length h)"
    and r4: "Forest h' (cell_ChildItems (h' ! length h)) S'
        ([] @ concat (map (\<lambda>e. if ChildItems (ParseNode sf e) \<noteq> []
                                 then ChildItems (ParseNode sf e) else [ParseNode sf e]) es))"
    and r5: "S' \<subseteq> {Suc (length h)..<length h'}"
    unfolding h'_def by auto
  show ?case
  proof (rule ParseNode_heap_ok_composite[where c = c and h' = h' and S' = S'])
    show "cell_ChildItems c = []" by (simp add: c_def)
    show "ParseNode_heap sf (FJsonValueArray es) h = (length h, h')"
      by (simp add: ParseNode_heap_Array h'_def c_def)
    show "Suc (length h) \<le> length h'" using r1 by simp
    show "\<forall>x < length h. h' ! x = (h @ [c]) ! x" by (rule r2)
    show "Forest h' (cell_ChildItems (h' ! length h)) S'
        (concat (map (\<lambda>e. if ChildItems (ParseNode sf e) \<noteq> []
                           then ChildItems (ParseNode sf e) else [ParseNode sf e]) es))"
      using r4 by simp
    show "S' \<subseteq> {Suc (length h)..<length h'}" by (rule r5)
    show "ParseNode sf (FJsonValueArray es) =
        FTreeItem (cell_Key (h' ! length h)) (cell_Value (h' ! length h))
          (cell_ValueType (h' ! length h))
          (concat (map (\<lambda>e. if ChildItems (ParseNode sf e) \<noteq> []
                           then ChildItems (ParseNode sf e) else [ParseNode sf e]) es))"
      by (simp add: r3 c_def ParseNode_Array)
  qed
next
  case (FJsonValueObject ms)
  define c where "c = \<lparr>cell_Key = '''', cell_Value = '''', cell_ValueType = EJson_Object,
                        cell_ChildItems = []\<rparr>"
  define h' where "h' = ParseNode_Object_loop_heap sf ms (length h) (h @ [c])"
  have IH: "\<forall>m \<in> set ms. \<forall>h. ParseNode_heap_ok sf (snd m) h"
  proof (intro ballI allI)
    fix m h assume m: "m \<in> set ms"
    obtain k v where kv: "m = (k, v)" by (cases m)
    show "ParseNode_heap_ok sf (snd m) h"
      using FJsonValueObject.IH[OF m, of v h] by (simp add: kv)
  qed
  have F0: "Forest (h @ [c]) (cell_ChildItems ((h @ [c]) ! length h)) {} []"
    by (simp add: c_def Forest_Nil)
  have N0: "length h < length (h @ [c])" by simp
  have S0: "{} \<subseteq> {Suc (length h)..<length (h @ [c])}" by simp
  from ParseNode_Object_loop_heap_Forest[OF IH N0 F0 S0]
  obtain S' where r1: "length (h @ [c]) \<le> length h'"
    and r2: "\<forall>x < length h. h' ! x = (h @ [c]) ! x"
    and r3: "cell_Key (h' ! length h) = cell_Key ((h @ [c]) ! length h)"
      "cell_Value (h' ! length h) = cell_Value ((h @ [c]) ! length h)"
      "cell_ValueType (h' ! length h) = cell_ValueType ((h @ [c]) ! length h)"
    and r4: "Forest h' (cell_ChildItems (h' ! length h)) S'
        ([] @ map (\<lambda>(k, v). FTreeItem k (Value (ParseNode sf v)) (ValueType (ParseNode sf v))
                                (ChildItems (ParseNode sf v))) ms)"
    and r5: "S' \<subseteq> {Suc (length h)..<length h'}"
    unfolding h'_def by auto
  show ?case
  proof (rule ParseNode_heap_ok_composite[where c = c and h' = h' and S' = S'])
    show "cell_ChildItems c = []" by (simp add: c_def)
    show "ParseNode_heap sf (FJsonValueObject ms) h = (length h, h')"
      by (simp add: ParseNode_heap_Object h'_def c_def)
    show "Suc (length h) \<le> length h'" using r1 by simp
    show "\<forall>x < length h. h' ! x = (h @ [c]) ! x" by (rule r2)
    show "Forest h' (cell_ChildItems (h' ! length h)) S'
        (map (\<lambda>(k, v). FTreeItem k (Value (ParseNode sf v)) (ValueType (ParseNode sf v))
                          (ChildItems (ParseNode sf v))) ms)"
      using r4 by simp
    show "S' \<subseteq> {Suc (length h)..<length h'}" by (rule r5)
    show "ParseNode sf (FJsonValueObject ms) =
        FTreeItem (cell_Key (h' ! length h)) (cell_Value (h' ! length h))
          (cell_ValueType (h' ! length h))
          (map (\<lambda>(k, v). FTreeItem k (Value (ParseNode sf v)) (ValueType (ParseNode sf v))
                          (ChildItems (ParseNode sf v))) ms)"
      by (simp add: r3 c_def ParseNode_Object)
  qed
qed (rule ParseNode_heap_ok_primitive)+

section \<open>BuildTree on the heap builds a forest\<close>

lemma keyed_row_Tree:
  fixes k :: string
  assumes P: "ParseNode_heap sf v h = (length h, h1)"
    and len: "length h < length h1"
    and T: "Tree h1 (length h) A (ParseNode sf v)" and A: "A \<subseteq> {length h..<length h1}"
  defines "c \<equiv> \<lparr>cell_Key = k, cell_Value = cell_Value (h1 ! length h),
      cell_ValueType = cell_ValueType (h1 ! length h),
      cell_ChildItems = cell_ChildItems (h1 ! length h)\<rparr>"
  shows "\<exists>B. Tree (h1 @ [c]) (length h1) (insert (length h1) B)
      (FTreeItem k (Value (ParseNode sf v)) (ValueType (ParseNode sf v))
         (ChildItems (ParseNode sf v))) \<and> B \<subseteq> {length h..<length h1}"
proof -
  from Tree_inv[OF T] obtain B where AB: "A = insert (length h) B"
    and F: "Forest h1 (cell_ChildItems (h1 ! length h)) B (ChildItems (ParseNode sf v))"
    and val: "Value (ParseNode sf v) = cell_Value (h1 ! length h)"
    and ty: "ValueType (ParseNode sf v) = cell_ValueType (h1 ! length h)"
    by blast
  have Blow: "\<And>x. x \<in> B \<Longrightarrow> length h \<le> x \<and> x < length h1"
    using AB A by fastforce
  have "\<forall>x \<in> B. x < length (h1 @ [c]) \<and> (h1 @ [c]) ! x = h1 ! x"
  proof
    fix x assume "x \<in> B"
    then have "x < length h1" using Blow by blast
    then show "x < length (h1 @ [c]) \<and> (h1 @ [c]) ! x = h1 ! x"
      by (simp add: nth_append)
  qed
  then have "Forest (h1 @ [c]) (cell_ChildItems (h1 ! length h)) B (ChildItems (ParseNode sf v))"
    by (rule Tree_Forest_frame(2)[OF F])
  then have FB: "Forest (h1 @ [c]) (cell_ChildItems ((h1 @ [c]) ! length h1)) B
      (ChildItems (ParseNode sf v))"
    by (simp add: c_def)
  have "length h1 < length (h1 @ [c])" by simp
  moreover have "length h1 \<notin> B" using Blow by fastforce
  ultimately have "Tree (h1 @ [c]) (length h1) (insert (length h1) B)
       (FTreeItem (cell_Key ((h1 @ [c]) ! length h1)) (cell_Value ((h1 @ [c]) ! length h1))
          (cell_ValueType ((h1 @ [c]) ! length h1)) (ChildItems (ParseNode sf v)))"
    using FB by (intro Tree_Node)
  then have "Tree (h1 @ [c]) (length h1) (insert (length h1) B)
      (FTreeItem k (Value (ParseNode sf v)) (ValueType (ParseNode sf v))
         (ChildItems (ParseNode sf v)))"
    by (simp add: c_def val ty)
  moreover have "B \<subseteq> {length h..<length h1}" using Blow by fastforce
  ultimately show ?thesis by blast
qed

lemma BuildTree_Array_loop_heap_Forest:
  assumes "Forest h Items S ts" and "S \<subseteq> {n..<length h}" and "n \<le> length h"
  shows "\<exists>Items' h' S'. BuildTree_Array_loop_heap sf es (Items, h) = (Items', h') \<and>
      length h \<le> length h' \<and> (\<forall>x < length h. h' ! x = h ! x) \<and>
      Forest h' Items' S' (ts @ map (ParseNode sf) es) \<and> S' \<subseteq> {n..<length h'}"
  using assms
proof (induction es arbitrary: h Items S ts)
  case Nil
  then show ?case by auto
next
  case (Cons e es)
  have "ParseNode_heap_ok sf e h" by (rule ParseNode_heap_ok_all)
  then obtain h1 A where P: "ParseNode_heap sf e h = (length h, h1)"
    and len: "length h < length h1" and fr: "\<forall>x < length h. h1 ! x = h ! x"
    and T: "Tree h1 (length h) A (ParseNode sf e)" and A: "A \<subseteq> {length h..<length h1}"
    by (rule ParseNode_heap_ok_D)
  have step: "BuildTree_Array_loop_heap sf (e # es) (Items, h) =
              BuildTree_Array_loop_heap sf es (Items @ [length h], h1)"
    by (simp add: P)
  have Alow: "\<And>x. x \<in> A \<Longrightarrow> length h \<le> x \<and> x < length h1"
    using A by fastforce
  have Shigh: "\<And>x. x \<in> S \<Longrightarrow> n \<le> x \<and> x < length h"
    using Cons.prems(2) by fastforce
  have frS: "\<forall>x \<in> S. x < length h1 \<and> h1 ! x = h ! x"
  proof
    fix x assume "x \<in> S"
    then have "x < length h" using Shigh by blast
    then show "x < length h1 \<and> h1 ! x = h ! x" using fr len by simp
  qed
  have FS: "Forest h1 Items S ts"
    by (rule Tree_Forest_frame(2)[OF Cons.prems(1) frS])
  have disj: "S \<inter> A = {}" using Alow Shigh by fastforce
  have F1: "Forest h1 (Items @ [length h]) (S \<union> A) (ts @ [ParseNode sf e])"
    by (rule Forest_append[OF FS Forest_single[OF T] disj])
  have SA: "S \<union> A \<subseteq> {n..<length h1}"
    using Alow Shigh Cons.prems(3) len by fastforce
  have n1: "n \<le> length h1" using Cons.prems(3) len by simp
  from Cons.IH[OF F1 SA n1] obtain Items' h' S' where
    r: "BuildTree_Array_loop_heap sf es (Items @ [length h], h1) = (Items', h')"
      "length h1 \<le> length h'" "\<forall>x < length h1. h' ! x = h1 ! x"
      "Forest h' Items' S' ((ts @ [ParseNode sf e]) @ map (ParseNode sf) es)"
      "S' \<subseteq> {n..<length h'}"
    by blast
  have "\<forall>x < length h. h' ! x = h ! x" using r(3) fr len by simp
  then show ?case
    unfolding step using r len by auto
qed

lemma BuildTree_Object_loop_heap_Forest:
  assumes "Forest h Items S ts" and "S \<subseteq> {n..<length h}" and "n \<le> length h"
  shows "\<exists>Items' h' S'. BuildTree_Object_loop_heap sf ms (Items, h) = (Items', h') \<and>
      length h \<le> length h' \<and> (\<forall>x < length h. h' ! x = h ! x) \<and>
      Forest h' Items' S'
        (ts @ map (\<lambda>(k, v). FTreeItem k (Value (ParseNode sf v)) (ValueType (ParseNode sf v))
                                (ChildItems (ParseNode sf v))) ms) \<and>
      S' \<subseteq> {n..<length h'}"
  using assms
proof (induction ms arbitrary: h Items S ts)
  case Nil
  then show ?case by auto
next
  case (Cons m ms)
  obtain k v where m: "m = (k, v)" by (cases m)
  have "ParseNode_heap_ok sf v h" by (rule ParseNode_heap_ok_all)
  then obtain h1 A where P: "ParseNode_heap sf v h = (length h, h1)"
    and len: "length h < length h1" and fr: "\<forall>x < length h. h1 ! x = h ! x"
    and T: "Tree h1 (length h) A (ParseNode sf v)" and A: "A \<subseteq> {length h..<length h1}"
    by (rule ParseNode_heap_ok_D)
  define c where "c = \<lparr>cell_Key = k, cell_Value = cell_Value (h1 ! length h),
      cell_ValueType = cell_ValueType (h1 ! length h),
      cell_ChildItems = cell_ChildItems (h1 ! length h)\<rparr>"
  define h3 where "h3 = h1 @ [c]"
  have step: "BuildTree_Object_loop_heap sf (m # ms) (Items, h) =
              BuildTree_Object_loop_heap sf ms (Items @ [length h1], h3)"
    using len
    by (cases "cell_ChildItems (h1 ! length h) = []")
       (simp_all add: m P MakeShared_def nth_append h3_def c_def)
  from keyed_row_Tree[OF P len T A, of k] obtain B where
    TC: "Tree h3 (length h1) (insert (length h1) B)
      (FTreeItem k (Value (ParseNode sf v)) (ValueType (ParseNode sf v))
         (ChildItems (ParseNode sf v)))"
    and B: "B \<subseteq> {length h..<length h1}"
    unfolding h3_def c_def by blast
  have Blow: "\<And>x. x \<in> B \<Longrightarrow> length h \<le> x \<and> x < length h1"
    using B by fastforce
  have Shigh: "\<And>x. x \<in> S \<Longrightarrow> n \<le> x \<and> x < length h"
    using Cons.prems(2) by fastforce
  have frS: "\<forall>x \<in> S. x < length h3 \<and> h3 ! x = h ! x"
  proof
    fix x assume "x \<in> S"
    then have "x < length h" using Shigh by blast
    then show "x < length h3 \<and> h3 ! x = h ! x"
      using fr len by (simp add: h3_def nth_append)
  qed
  have FS: "Forest h3 Items S ts"
    by (rule Tree_Forest_frame(2)[OF Cons.prems(1) frS])
  have disj: "S \<inter> insert (length h1) B = {}" using Blow Shigh len by fastforce
  have F1: "Forest h3 (Items @ [length h1]) (S \<union> insert (length h1) B)
      (ts @ [FTreeItem k (Value (ParseNode sf v)) (ValueType (ParseNode sf v))
         (ChildItems (ParseNode sf v))])"
    by (rule Forest_append[OF FS Forest_single[OF TC] disj])
  have len3: "length h3 = Suc (length h1)" by (simp add: h3_def)
  have SA: "S \<union> insert (length h1) B \<subseteq> {n..<length h3}"
    using Blow Shigh Cons.prems(3) len len3 by fastforce
  have n3: "n \<le> length h3" using Cons.prems(3) len len3 by simp
  from Cons.IH[OF F1 SA n3] obtain Items' h' S' where
    r: "BuildTree_Object_loop_heap sf ms (Items @ [length h1], h3) = (Items', h')"
      "length h3 \<le> length h'" "\<forall>x < length h3. h' ! x = h3 ! x"
      "Forest h' Items' S'
        ((ts @ [FTreeItem k (Value (ParseNode sf v)) (ValueType (ParseNode sf v))
            (ChildItems (ParseNode sf v))]) @
         map (\<lambda>(k, v). FTreeItem k (Value (ParseNode sf v)) (ValueType (ParseNode sf v))
                          (ChildItems (ParseNode sf v))) ms)"
      "S' \<subseteq> {n..<length h'}"
    by blast
  have "\<forall>x < length h. h' ! x = h ! x"
    using r(3) fr len len3 by (simp add: h3_def nth_append)
  then show ?case
    unfolding step using r len len3 by (auto simp: m)
qed

lemma BuildTree_heap_Forest:
  "\<exists>Items' h' S'. BuildTree_heap (SanitizeFloat E) v (Items, h) = (Items', h') \<and>
      length h \<le> length h' \<and> (\<forall>x < length h. h' ! x = h ! x) \<and>
      Forest h' Items' S' (TreeItems (BuildTree E v w)) \<and> S' \<subseteq> {length h..<length h'}"
proof -
  have F0: "Forest h [] {} []" by (rule Forest_Nil)
  have S0: "{} \<subseteq> {length h..<length h}" by simp
  show ?thesis
  proof (cases "\<exists>es. v = FJsonValueArray es")
    case True
    then obtain es where v: "v = FJsonValueArray es" by blast
    from BuildTree_Array_loop_heap_Forest[OF F0 S0, of sf es for sf] show ?thesis
      by (simp add: v BuildTree_heap_def BuildTree_items)
  next
    case notArr: False
    show ?thesis
    proof (cases "\<exists>ms. v = FJsonValueObject ms")
      case True
      then obtain ms where v: "v = FJsonValueObject ms" by blast
      from BuildTree_Object_loop_heap_Forest[OF F0 S0, of sf ms for sf] show ?thesis
        by (simp add: v BuildTree_heap_def BuildTree_items)
    next
      case False
      have ty: "JsonType v \<noteq> EJson_Array" "JsonType v \<noteq> EJson_Object"
        using notArr False by (cases v; simp)+
      have items: "TreeItems (BuildTree E v w) = [ParseNode (SanitizeFloat E) v]"
        using notArr False by (cases v) (simp_all add: BuildTree_items)
      have "ParseNode_heap_ok (SanitizeFloat E) v h" by (rule ParseNode_heap_ok_all)
      then obtain h1 A where P: "ParseNode_heap (SanitizeFloat E) v h = (length h, h1)"
        and len: "length h < length h1" and fr: "\<forall>x < length h. h1 ! x = h ! x"
        and T: "Tree h1 (length h) A (ParseNode (SanitizeFloat E) v)"
        and A: "A \<subseteq> {length h..<length h1}"
        by (rule ParseNode_heap_ok_D)
      have "BuildTree_heap (SanitizeFloat E) v (Items, h) = ([length h], h1)"
        by (simp add: BuildTree_heap_def ty P)
      then show ?thesis
        using len fr Forest_single[OF T] A unfolding items by auto
    qed
  qed
qed

section \<open>A forest is a finite simple tree\<close>

lemma Child_rel_closed:
  assumes "\<forall>p \<in> S. p < length h \<and> set (cell_ChildItems (h ! p)) \<subseteq> S"
  shows "(Child_rel h)\<^sup>* `` S = S"
proof (rule Image_closed_trancl)
  show "Child_rel h `` S \<subseteq> S" using assms by (auto simp: Child_rel_def)
qed

lemma Forest_reaches:
  "Tree h a A t \<Longrightarrow> A \<subseteq> (Child_rel h)\<^sup>* `` {a}"
  "Forest h as S ts \<Longrightarrow> S \<subseteq> (Child_rel h)\<^sup>* `` set as"
proof (induction rule: Tree_Forest.inducts)
  case (Forest_Nil h)
  show ?case by simp
next
  case (Forest_Cons h a A t as B ts)
  then show ?case by auto
next
  case (Tree_Node a h B cs)
  have "B \<subseteq> (Child_rel h)\<^sup>* `` {a}"
  proof
    fix x assume "x \<in> B"
    then obtain c where c: "c \<in> set (cell_ChildItems (h ! a))" and cx: "(c, x) \<in> (Child_rel h)\<^sup>*"
      using Tree_Node.IH by auto
    have "(a, c) \<in> Child_rel h" using c Tree_Node.hyps(1) by (simp add: Child_rel_def)
    then show "x \<in> (Child_rel h)\<^sup>* `` {a}" using cx by (auto intro: converse_rtrancl_into_rtrancl)
  qed
  then show ?case by auto
qed

lemma Forest_Reachable: "Forest h as S ts \<Longrightarrow> Reachable h as = S"
proof
  assume F: "Forest h as S ts"
  have "(Child_rel h)\<^sup>* `` set as \<subseteq> (Child_rel h)\<^sup>* `` S"
    using Tree_Forest_closed(2)[OF F] by (intro Image_mono) auto
  also have "\<dots> = S" using Tree_Forest_closed(2)[OF F] by (intro Child_rel_closed) auto
  finally show "Reachable h as \<subseteq> S" by (simp add: Reachable_def)
  show "S \<subseteq> Reachable h as" using Forest_reaches(2)[OF F] by (simp add: Reachable_def)
qed

lemma Forest_acyclic:
  "Tree h a A t \<Longrightarrow> \<forall>x \<in> A. (x, x) \<notin> (Child_rel h)\<^sup>+"
  "Forest h as S ts \<Longrightarrow> \<forall>x \<in> S. (x, x) \<notin> (Child_rel h)\<^sup>+"
proof (induction rule: Tree_Forest.inducts)
  case (Forest_Nil h)
  show ?case by simp
next
  case (Forest_Cons h a A t as B ts)
  then show ?case by auto
next
  case (Tree_Node a h B cs)
  have closed: "(Child_rel h)\<^sup>* `` B = B"
    using Tree_Forest_closed(2)[OF Tree_Node.hyps(2)] by (intro Child_rel_closed) auto
  have "(a, a) \<notin> (Child_rel h)\<^sup>+"
  proof
    assume "(a, a) \<in> (Child_rel h)\<^sup>+"
    then obtain c where ac: "(a, c) \<in> Child_rel h" and ca: "(c, a) \<in> (Child_rel h)\<^sup>*"
      by (auto dest: tranclD)
    have "c \<in> B"
      using ac Tree_Forest_closed(2)[OF Tree_Node.hyps(2)] by (auto simp: Child_rel_def)
    then have "a \<in> (Child_rel h)\<^sup>* `` B" using ca by auto
    then show False using closed Tree_Node.hyps(3) by simp
  qed
  then show ?case using Tree_Node.IH by simp
qed

lemma Forest_unshared:
  "Tree h a A t \<Longrightarrow>
     (\<forall>p \<in> A. distinct (cell_ChildItems (h ! p)) \<and> a \<notin> set (cell_ChildItems (h ! p))) \<and>
     (\<forall>p \<in> A. \<forall>q \<in> A. p \<noteq> q \<longrightarrow>
        set (cell_ChildItems (h ! p)) \<inter> set (cell_ChildItems (h ! q)) = {})"
  "Forest h as S ts \<Longrightarrow>
     distinct as \<and>
     (\<forall>p \<in> S. distinct (cell_ChildItems (h ! p)) \<and>
        set (cell_ChildItems (h ! p)) \<inter> set as = {}) \<and>
     (\<forall>p \<in> S. \<forall>q \<in> S. p \<noteq> q \<longrightarrow>
        set (cell_ChildItems (h ! p)) \<inter> set (cell_ChildItems (h ! q)) = {})"
proof (induction rule: Tree_Forest.inducts)
  case (Forest_Nil h)
  show ?case by simp
next
  case (Forest_Cons h a A t as B ts)
  note cA = Tree_Forest_closed(1)[OF Forest_Cons.hyps(1)]
  note cB = Tree_Forest_closed(2)[OF Forest_Cons.hyps(2)]
  have kidsA: "\<And>p. p \<in> A \<Longrightarrow> set (cell_ChildItems (h ! p)) \<subseteq> A" using cA by blast
  have kidsB: "\<And>p. p \<in> B \<Longrightarrow> set (cell_ChildItems (h ! p)) \<subseteq> B" using cB by blast
  have aA: "a \<in> A" using cA by blast
  have asB: "set as \<subseteq> B" using cB by blast
  have d: "distinct (a # as)"
    using Forest_Cons.IH aA asB Forest_Cons.hyps(3) by auto
  have one: "\<forall>p \<in> A \<union> B. distinct (cell_ChildItems (h ! p)) \<and>
        set (cell_ChildItems (h ! p)) \<inter> set (a # as) = {}"
  proof
    fix p assume "p \<in> A \<union> B"
    then show "distinct (cell_ChildItems (h ! p)) \<and>
        set (cell_ChildItems (h ! p)) \<inter> set (a # as) = {}"
    proof
      assume p: "p \<in> A"
      then have "set (cell_ChildItems (h ! p)) \<inter> set as = {}"
        using kidsA[OF p] asB Forest_Cons.hyps(3) by blast
      then show ?thesis using Forest_Cons.IH(1) p by auto
    next
      assume p: "p \<in> B"
      then have "a \<notin> set (cell_ChildItems (h ! p))"
        using kidsB[OF p] aA Forest_Cons.hyps(3) by blast
      then show ?thesis using Forest_Cons.IH(2) p by auto
    qed
  qed
  have two: "\<forall>p \<in> A \<union> B. \<forall>q \<in> A \<union> B. p \<noteq> q \<longrightarrow>
        set (cell_ChildItems (h ! p)) \<inter> set (cell_ChildItems (h ! q)) = {}"
  proof (intro ballI impI)
    fix p q assume p: "p \<in> A \<union> B" and q: "q \<in> A \<union> B" and pq: "p \<noteq> q"
    consider "p \<in> A" "q \<in> A" | "p \<in> B" "q \<in> B" | "p \<in> A" "q \<in> B" | "p \<in> B" "q \<in> A"
      using p q by blast
    then show "set (cell_ChildItems (h ! p)) \<inter> set (cell_ChildItems (h ! q)) = {}"
    proof cases
      case 1
      then show ?thesis using Forest_Cons.IH(1) pq by blast
    next
      case 2
      then show ?thesis using Forest_Cons.IH(2) pq by blast
    next
      case 3
      then show ?thesis using kidsA[of p] kidsB[of q] Forest_Cons.hyps(3) by blast
    next
      case 4
      then show ?thesis using kidsA[of q] kidsB[of p] Forest_Cons.hyps(3) by blast
    qed
  qed
  show ?case using d one two by blast
next
  case (Tree_Node a h B cs)
  note cB = Tree_Forest_closed(2)[OF Tree_Node.hyps(2)]
  have kidsB: "\<And>p. p \<in> B \<Longrightarrow> set (cell_ChildItems (h ! p)) \<subseteq> B" using cB by blast
  have kidsa: "set (cell_ChildItems (h ! a)) \<subseteq> B" using cB by blast
  have one: "\<forall>p \<in> insert a B. distinct (cell_ChildItems (h ! p)) \<and>
      a \<notin> set (cell_ChildItems (h ! p))"
  proof
    fix p assume "p \<in> insert a B"
    then consider "p = a" | "p \<in> B" by blast
    then show "distinct (cell_ChildItems (h ! p)) \<and> a \<notin> set (cell_ChildItems (h ! p))"
    proof cases
      case 1
      then show ?thesis using Tree_Node.IH kidsa Tree_Node.hyps(3) by blast
    next
      case 2
      then show ?thesis using Tree_Node.IH kidsB[OF 2] Tree_Node.hyps(3) by blast
    qed
  qed
  have two: "\<forall>p \<in> insert a B. \<forall>q \<in> insert a B. p \<noteq> q \<longrightarrow>
        set (cell_ChildItems (h ! p)) \<inter> set (cell_ChildItems (h ! q)) = {}"
  proof (intro ballI impI)
    fix p q assume p: "p \<in> insert a B" and q: "q \<in> insert a B" and pq: "p \<noteq> q"
    consider "p = a" "q \<in> B" | "p \<in> B" "q = a" | "p \<in> B" "q \<in> B"
      using p q pq by blast
    then show "set (cell_ChildItems (h ! p)) \<inter> set (cell_ChildItems (h ! q)) = {}"
    proof cases
      case 1
      then show ?thesis using Tree_Node.IH by blast
    next
      case 2
      then show ?thesis using Tree_Node.IH by blast
    next
      case 3
      then show ?thesis using Tree_Node.IH pq by blast
    qed
  qed
  show ?case using one two by blast
qed

lemma Forest_Simple_tree:
  assumes F: "Forest h Items S ts"
  shows "Simple_tree h Items"
proof -
  have R: "Reachable h Items = S" by (rule Forest_Reachable[OF F])
  have "S \<subseteq> {..<length h}" using Tree_Forest_closed(2)[OF F] by auto
  then have "finite S" by (rule finite_subset) simp
  then show ?thesis
    unfolding Simple_tree_def R
    using Tree_Forest_closed(2)[OF F] Forest_acyclic(2)[OF F] Forest_unshared(2)[OF F]
    by blast
qed

text \<open>
  The heap functions compute the node values of the functions on values: the pointers
  \<open>BuildTree_heap\<close> leaves in \<open>_TreeItems\<close> read as the item list of \<open>BuildTree\<close>, through new
  objects only, and the objects that were on the heap before are untouched.
\<close>

lemma BuildTree_heap_refines:
  "\<exists>Items' h' S'. BuildTree_heap (SanitizeFloat E) v (Items, h) = (Items', h') \<and>
      (\<forall>x < length h. h' ! x = h ! x) \<and>
      Forest h' Items' S' (TreeItems (BuildTree E v w)) \<and> S' \<subseteq> {length h..<length h'}"
  using BuildTree_heap_Forest[of E v Items h w] by blast

text \<open>
  Claim C7. What \<open>ParseNode\<close> returns and what \<open>BuildTree\<close> leaves in \<open>_TreeItems\<close> is, on the
  heap of shared node objects, a finite simple tree: no node is a descendant of itself,
  and no node object is pointed to from two positions of the final tree. This holds from
  any heap and any earlier item list.
\<close>

theorem ParseNode_BuildTree_simple_tree:
  fixes E :: "'d Engine"
  shows "(case ParseNode_heap sf v h of (Node, h') \<Rightarrow> Simple_tree h' [Node]) \<and>
   (case BuildTree_heap (SanitizeFloat E) v' (Items, h) of (Items', h') \<Rightarrow>
      Simple_tree h' Items')"
proof
  have "ParseNode_heap_ok sf v h" by (rule ParseNode_heap_ok_all)
  then obtain h1 A where P: "ParseNode_heap sf v h = (length h, h1)"
    and T: "Tree h1 (length h) A (ParseNode sf v)"
    by (rule ParseNode_heap_ok_D)
  show "case ParseNode_heap sf v h of (Node, h') \<Rightarrow> Simple_tree h' [Node]"
    unfolding P using Forest_Simple_tree[OF Forest_single[OF T]] by simp
next
  fix w :: "('d, unit) UJsonTreeViewerWidget"
  obtain Items' h' S' where B: "BuildTree_heap (SanitizeFloat E) v' (Items, h) = (Items', h')"
    and F: "Forest h' Items' S' (TreeItems (BuildTree E v' w))"
    using BuildTree_heap_Forest[of E v' Items h w] by blast
  show "case BuildTree_heap (SanitizeFloat E) v' (Items, h) of (Items', h') \<Rightarrow>
      Simple_tree h' Items'"
    unfolding B using Forest_Simple_tree[OF F] by simp
qed

lemma Example_BuildTree_heap:
  "BuildTree_heap (SanitizeFloat Example_Engine)
     (FJsonValueObject [(''a'', FJsonValueArray
        [FJsonValueArray [FJsonValueNumber 1], FJsonValueBoolean True])])
     ([0], Example_Heap) =
   ([5],
    [\<lparr>cell_Key = ''old'', cell_Value = ''row'', cell_ValueType = EJson_String,
        cell_ChildItems = []\<rparr>,
     \<lparr>cell_Key = [], cell_Value = [], cell_ValueType = EJson_Array,
        cell_ChildItems = [3, 4]\<rparr>,
     \<lparr>cell_Key = [], cell_Value = [], cell_ValueType = EJson_Array,
        cell_ChildItems = [3]\<rparr>,
     \<lparr>cell_Key = [], cell_Value = ''1.0'', cell_ValueType = EJson_Number,
        cell_ChildItems = []\<rparr>,
     \<lparr>cell_Key = [], cell_Value = ''true'', cell_ValueType = EJson_Boolean,
        cell_ChildItems = []\<rparr>,
     \<lparr>cell_Key = ''a'', cell_Value = [], cell_ValueType = EJson_Array,
        cell_ChildItems = [3, 4]\<rparr>])"
  by code_simp

text \<open>
  The theorem at the object \<open>{"a":[[1],true]}\<close>, built in a widget that shows one row: the
  new item list is the one pointer \<open>5\<close> to the row \<open>a\<close>, whose children are the objects \<open>3\<close>
  and \<open>4\<close>; neither the row nor its first child is its own descendant, and the two child
  pointers differ. (The objects \<open>1\<close> and \<open>2\<close>, the nodes \<open>ParseNode\<close> made for the two arrays,
  also point to \<open>3\<close>, but are not reachable from the item list.)
\<close>

theorem ParseNode_BuildTree_simple_tree_example:
  \<open>fst (BuildTree_heap (SanitizeFloat Example_Engine)
     (FJsonValueObject [(''a'', FJsonValueArray
        [FJsonValueArray [FJsonValueNumber 1], FJsonValueBoolean True])])
     ([0], Example_Heap)) = [5] \<and>
   cell_ChildItems (snd (BuildTree_heap (SanitizeFloat Example_Engine)
     (FJsonValueObject [(''a'', FJsonValueArray
        [FJsonValueArray [FJsonValueNumber 1], FJsonValueBoolean True])])
     ([0], Example_Heap)) ! 5) = [3, 4] \<and>
   cell_ChildItems (snd (BuildTree_heap (SanitizeFloat Example_Engine)
     (FJsonValueObject [(''a'', FJsonValueArray
        [FJsonValueArray [FJsonValueNumber 1], FJsonValueBoolean True])])
     ([0], Example_Heap)) ! 2) = [3] \<and>
   (5, 5) \<notin> (Child_rel (snd (BuildTree_heap (SanitizeFloat Example_Engine)
     (FJsonValueObject [(''a'', FJsonValueArray
        [FJsonValueArray [FJsonValueNumber 1], FJsonValueBoolean True])])
     ([0], Example_Heap))))\<^sup>+ \<and>
   (3, 3) \<notin> (Child_rel (snd (BuildTree_heap (SanitizeFloat Example_Engine)
     (FJsonValueObject [(''a'', FJsonValueArray
        [FJsonValueArray [FJsonValueNumber 1], FJsonValueBoolean True])])
     ([0], Example_Heap))))\<^sup>+\<close>
proof -
  define r where "r = BuildTree_heap (SanitizeFloat Example_Engine)
     (FJsonValueObject [(''a'', FJsonValueArray
        [FJsonValueArray [FJsonValueNumber 1], FJsonValueBoolean True])])
     ([0], Example_Heap)"
  have S: "Simple_tree (snd r) (fst r)"
    using ParseNode_BuildTree_simple_tree[of "SanitizeFloat Example_Engine" FJsonValueNull
        Example_Heap Example_Engine "FJsonValueObject [(''a'', FJsonValueArray
        [FJsonValueArray [FJsonValueNumber 1], FJsonValueBoolean True])]" "[0]"]
    by (simp add: r_def case_prod_beta)
  have items: "fst r = [5]" by (simp add: r_def Example_BuildTree_heap)
  have kids: "cell_ChildItems (snd r ! 5) = [3, 4]" "cell_ChildItems (snd r ! 2) = [3]"
    "5 < length (snd r)"
    by (simp_all add: r_def Example_BuildTree_heap)
  have r5: "5 \<in> Reachable (snd r) (fst r)" by (simp add: items Reachable_def)
  have "(5, 3) \<in> Child_rel (snd r)" using kids by (simp add: Child_rel_def)
  then have r3: "3 \<in> Reachable (snd r) (fst r)" by (auto simp: items Reachable_def)
  have "(5, 5) \<notin> (Child_rel (snd r))\<^sup>+" "(3, 3) \<notin> (Child_rel (snd r))\<^sup>+"
    using S r5 r3 unfolding Simple_tree_def by blast+
  then show ?thesis using items kids unfolding r_def by simp
qed

end
